theory Spec2Isabelle
  imports Complex_Main "HOL-Library.Word" "HOL-Library.Sublist"
begin

section \<open>JavaScript strings\<close>

text \<open>
  A JavaScript string is a sequence of UTF-16 code units. String literals of the
  source are ASCII; \<open>lit\<close> turns an ASCII literal into its code units.
\<close>

type_synonym code_unit = "16 word"
type_synonym jsstring = "code_unit list"

definition lit :: "string \<Rightarrow> jsstring" where
  "lit s = map of_char s"

text \<open>
  The code units that \<open>String.prototype.trim\<close> strips and that the regular
  expression class \<open>\s\<close> matches: ECMAScript WhiteSpace and LineTerminator.
\<close>

definition isWhiteSpace :: "code_unit \<Rightarrow> bool" where
  "isWhiteSpace c \<longleftrightarrow>
     c \<in> set [0x0009, 0x000A, 0x000B, 0x000C, 0x000D, 0x0020, 0x00A0, 0x1680,
              0x2028, 0x2029, 0x202F, 0x205F, 0x3000, 0xFEFF]
     \<or> (0x2000 \<le> c \<and> c \<le> 0x200A)"

definition trim :: "jsstring \<Rightarrow> jsstring" where
  "trim s = rev (dropWhile isWhiteSpace (rev (dropWhile isWhiteSpace s)))"

text \<open>Truthiness of a string value: the empty string is falsy.\<close>

definition truthy :: "jsstring \<Rightarrow> bool" where
  "truthy s \<longleftrightarrow> s \<noteq> []"

text \<open>
  A template literal \<open>`${v}`\<close> converts its argument to a string: an absent
  (\<open>undefined\<close>) value becomes the text \<open>undefined\<close>.
\<close>

definition templateStr :: "jsstring option \<Rightarrow> jsstring" where
  "templateStr v = (case v of None \<Rightarrow> lit ''undefined'' | Some s \<Rightarrow> s)"

section \<open>Regular expressions of the source\<close>

text \<open>
  The fragment of regular expressions that \<open>cleanBase64\<close> uses: literals,
  ordered alternation and sequencing. \<open>matchAt r s k\<close> is the backtracking matcher
  of ECMAScript run at the start of \<open>s\<close>: the continuation \<open>k\<close> gets what is left of
  the input after \<open>r\<close>, and an alternative that makes the continuation fail is given
  up for the next one.
\<close>

datatype regex = Lit jsstring | Alt regex regex | Seq regex regex

fun stripPrefix :: "jsstring \<Rightarrow> jsstring \<Rightarrow> jsstring option" where
  "stripPrefix [] s = Some s"
| "stripPrefix (p # ps) [] = None"
| "stripPrefix (p # ps) (c # cs) = (if p = c then stripPrefix ps cs else None)"

fun matchAt :: "regex \<Rightarrow> jsstring \<Rightarrow> (jsstring \<Rightarrow> jsstring option) \<Rightarrow> jsstring option" where
  "matchAt (Lit l) s k = (case stripPrefix l s of None \<Rightarrow> None | Some r \<Rightarrow> k r)"
| "matchAt (Alt a b) s k = (case matchAt a s k of Some r \<Rightarrow> Some r | None \<Rightarrow> matchAt b s k)"
| "matchAt (Seq a b) s k = matchAt a s (\<lambda>r. matchAt b r k)"

text \<open>
  \<open>s.replace(/^r/, "")\<close> for a pattern anchored at the start and without the
  \<open>g\<close> flag: the match, if there is one, is cut off; otherwise the string is
  returned as it is.
\<close>

definition replaceAnchored :: "regex \<Rightarrow> jsstring \<Rightarrow> jsstring" where
  "replaceAnchored r s = (case matchAt r s Some of None \<Rightarrow> s | Some rest \<Rightarrow> rest)"

text \<open>
  \<open>s.replace(/\s+/g, '_')\<close>: every maximal run of white space becomes one
  underscore.
\<close>

function replaceWhiteSpaceRuns :: "jsstring \<Rightarrow> jsstring" where
  "replaceWhiteSpaceRuns [] = []"
| "replaceWhiteSpaceRuns (c # cs) =
     (if isWhiteSpace c then of_char CHR ''_'' # replaceWhiteSpaceRuns (dropWhile isWhiteSpace cs)
      else c # replaceWhiteSpaceRuns cs)"
  by pat_completeness auto
termination
  by (relation "measure length") (auto simp: less_Suc_eq_le length_dropWhile_le)

text \<open>\<open>s.split(' ')\<close>: the pieces between single spaces; never an empty array.\<close>

fun splitSpaces :: "jsstring \<Rightarrow> jsstring \<Rightarrow> jsstring list" where
  "splitSpaces cur [] = [cur]"
| "splitSpaces cur (c # cs) =
     (if c = of_char CHR '' '' then cur # splitSpaces [] cs else splitSpaces (cur @ [c]) cs)"

definition split :: "jsstring \<Rightarrow> jsstring list" where
  "split s = splitSpaces [] s"

section \<open>services/gemini.ts\<close>

subsection \<open>cleanBase64\<close>

text \<open>The pattern \<open>/^data:image\/(png|jpeg|jpg);base64,/\<close>.\<close>

definition headerRegex :: regex where
  "headerRegex =
     Seq (Lit (lit ''data:image/''))
       (Seq (Alt (Lit (lit ''png'')) (Alt (Lit (lit ''jpeg'')) (Lit (lit ''jpg''))))
            (Lit (lit '';base64,'')))"

definition cleanBase64 :: "jsstring \<Rightarrow> jsstring" where
  "cleanBase64 data = replaceAnchored headerRegex data"

text \<open>The three headers that the pattern describes.\<close>

definition dataUriHeaders :: "jsstring list" where
  "dataUriHeaders =
     [lit ''data:image/png;base64,'', lit ''data:image/jpeg;base64,'', lit ''data:image/jpg;base64,'']"


subsection \<open>The generative AI service\<close>

text \<open>
  Values thrown by the code or by the platform, and rejection reasons of the service:
  \<open>Error msg\<close> is \<open>new Error(msg)\<close>, \<open>TypeError\<close> is what reading a property of
  \<open>undefined\<close> or \<open>null\<close> throws, \<open>SyntaxError\<close> is what \<open>JSON.parse\<close> throws,
  \<open>ApiError\<close> is a failure reported by the service client.
\<close>

datatype js_error = Error jsstring | TypeError | SyntaxError | ApiError jsstring

datatype mode = Submit | Generate

text \<open>
  The request and response objects of \<open>ai.models.generateContent\<close>. A field that
  the client library declares optional is an \<open>option\<close>: \<open>None\<close> is \<open>undefined\<close>.
\<close>

record blob =
  mimeType :: "jsstring option"
  data :: "jsstring option"

record part =
  partText :: "jsstring option"
  inlineData :: "blob option"

record content =
  parts :: "part list option"

record candidate =
  content :: "content option"

record response =
  candidates :: "candidate list option"
  responseText :: "jsstring option"

datatype schema = StringType | ObjectType "(jsstring \<times> schema) list" "jsstring list"

record config =
  responseMimeType :: jsstring
  responseSchema :: schema

datatype contents = Parts "part list" | Prompt jsstring

record request =
  model :: jsstring
  contents :: contents
  config :: "config option"

text \<open>The value that \<open>JSON.parse\<close> returns.\<close>

datatype json =
  JNull | JBool bool | JNumber rat | JString jsstring | JArray "json list"
  | JObject "(jsstring \<times> json) list"

text \<open>
  Reading a property \<open>v.key\<close> of a parsed value, for a key that no prototype
  defines: \<open>null\<close> throws, an object gives the value stored under the key or
  \<open>undefined\<close> (\<open>None\<close>), every other value gives \<open>undefined\<close>.
\<close>

definition getProp :: "json \<Rightarrow> jsstring \<Rightarrow> js_error + json option" where
  "getProp v key =
     (case v of JNull \<Rightarrow> Inl TypeError | JObject kvs \<Rightarrow> Inr (map_of kvs key) | _ \<Rightarrow> Inr None)"

text \<open>
  What surrounds the orchestrator: the service (a promise that is rejected is \<open>Inl\<close>),
  the platform's \<open>JSON.parse\<close>, and which of the two promises is settled first
  (\<open>Promise.all\<close> rejects with the first rejection it sees).
\<close>

record env =
  generateContent :: "request \<Rightarrow> js_error + response"
  JSON_parse :: "jsstring \<Rightarrow> js_error + json"
  imageSettlesFirst :: bool

text \<open>
  \<open>types.ts\<close> declares the four fields of \<open>QuizResult\<close> as strings. The two
  sentences are read from a value of type \<open>any\<close>, so at run time they hold whatever
  the parsed text holds: \<open>None\<close> is \<open>undefined\<close>.
\<close>

record QuizResult =
  imageUrl :: jsstring
  originalSentence :: "json option"
  blankedSentence :: "json option"
  targetWord :: jsstring

text \<open>
  The image promise resolves either with the tagged drawing
  \<open>{ isOriginal: true, data }\<close> or with a response of the service.
\<close>

datatype imageResult = Original jsstring | FromService response

text \<open>A \<open>string | null\<close> value that passes \<open>if (v)\<close>.\<close>

definition provided :: "jsstring option \<Rightarrow> jsstring option" where
  "provided v = (case v of None \<Rightarrow> None | Some s \<Rightarrow> if truthy s then Some s else None)"

text \<open>\<open>v || d\<close> on strings.\<close>

definition orElse :: "jsstring option \<Rightarrow> jsstring \<Rightarrow> jsstring" where
  "orElse v d = (case provided v of None \<Rightarrow> d | Some s \<Rightarrow> s)"

definition apostrophe :: jsstring where
  "apostrophe = [0x0027]"

definition newline :: jsstring where
  "newline = [0x000A]"

definition imageModel :: jsstring where
  "imageModel = lit ''gemini-2.5-flash-image''"

definition textModel :: jsstring where
  "textModel = lit ''gemini-2.5-flash''"

subsection \<open>generateQuiz: the image branch\<close>

text \<open>The three errors that \<open>generateQuiz\<close> itself throws.\<close>

definition drawingRequired :: js_error where
  "drawingRequired = Error (lit ''You must draw a picture to use 'Submit' mode.'')"

definition inputRequired :: js_error where
  "inputRequired = Error (lit ''Please provide either a drawing or a sentence to generate an image.'')"

definition imageFailed :: js_error where
  "imageFailed = Error (lit ''Failed to generate or process image.'')"

definition contextClause :: "jsstring \<Rightarrow> jsstring" where
  \<open>contextClause sentence =
     (if truthy sentence then lit '' and the context of the sentence: "'' @ sentence @ lit ''"''
      else [])\<close>

definition imagePrompt :: "jsstring \<Rightarrow> jsstring \<Rightarrow> jsstring" where
  "imagePrompt word sentence =
     lit ''Turn this rough sketch into a high-quality, colorful, realistic illustration that clearly represents the concept of ''
     @ apostrophe @ word @ apostrophe @ contextClause sentence
     @ lit ''. Do not include any text inside the generated image.''"

definition sketchRequest :: "jsstring \<Rightarrow> jsstring \<Rightarrow> jsstring \<Rightarrow> request" where
  "sketchRequest word sentence drawing =
     \<lparr>model = imageModel,
      contents = Parts
        [\<lparr>partText = None,
          inlineData = Some \<lparr>mimeType = Some (lit ''image/png''), data = Some (cleanBase64 drawing)\<rparr>\<rparr>,
         \<lparr>partText = Some (imagePrompt word sentence), inlineData = None\<rparr>],
      config = None\<rparr>"

definition illustrationRequest :: "jsstring \<Rightarrow> jsstring \<Rightarrow> request" where
  \<open>illustrationRequest word sentence =
     \<lparr>model = imageModel,
      contents = Parts
        [\<lparr>partText = Some
            (lit ''Create a high-quality, semi-realistic illustration for the following sentence: "''
             @ sentence @ lit ''". Focus visually on the concept of: '' @ word
             @ lit ''. No text in image.''),
          inlineData = None\<rparr>],
      config = None\<rparr>\<close>

text \<open>
  Step 1 of \<open>generateQuiz\<close>. The result is \<open>Inl\<close> when the step throws; otherwise
  it is the outcome of the image promise and the requests that were sent to create it.
\<close>

definition prepareImage ::
  "env \<Rightarrow> jsstring \<Rightarrow> jsstring \<Rightarrow> jsstring option \<Rightarrow> mode
     \<Rightarrow> js_error + ((js_error + imageResult) \<times> request list)" where
  "prepareImage e word sentence drawingBase64 m =
     (case m of
        Submit \<Rightarrow>
          (case provided drawingBase64 of
             None \<Rightarrow> Inl drawingRequired
           | Some d \<Rightarrow> Inr (Inr (Original d), []))
      | Generate \<Rightarrow>
          (case provided drawingBase64 of
             Some d \<Rightarrow>
               (let req = sketchRequest word sentence d
                in Inr (map_sum id FromService (generateContent e req), [req]))
           | None \<Rightarrow>
               if truthy (trim sentence) then
                 (let req = illustrationRequest word sentence
                  in Inr (map_sum id FromService (generateContent e req), [req]))
               else Inl inputRequired))"

subsection \<open>generateQuiz: the text branch\<close>

definition quizSchema :: schema where
  "quizSchema =
     ObjectType [(lit ''originalSentence'', StringType), (lit ''blankedSentence'', StringType)]
       [lit ''originalSentence'', lit ''blankedSentence'']"

definition jsonConfig :: config where
  "jsonConfig = \<lparr>responseMimeType = lit ''application/json'', responseSchema = quizSchema\<rparr>"

definition indent :: jsstring where
  "indent = lit ''      ''"

definition blankingPrompt :: "jsstring \<Rightarrow> jsstring \<Rightarrow> jsstring" where
  \<open>blankingPrompt word sentence =
     lit ''I have a sentence: "'' @ sentence @ lit ''". '' @ newline
     @ indent @ lit ''I have a target word: "'' @ word @ lit ''".'' @ newline
     @ indent @ lit ''Return a JSON object with the "originalSentence" (as provided) and a "blankedSentence" where the target word (and any morphological variations of it) is replaced with "______".''\<close>

definition authoringPrompt :: "jsstring \<Rightarrow> jsstring" where
  \<open>authoringPrompt word =
     lit ''Write a clear, educational English example sentence using the word "'' @ word @ lit ''". '' @ newline
     @ indent @ lit ''Then, create a version of that sentence where the word "'' @ word
     @ lit ''" (and its variations like plurals/conjugations) is replaced by "______".'' @ newline
     @ indent @ lit ''Return JSON.''\<close>

text \<open>Step 2 of \<open>generateQuiz\<close>: the request of the text branch.\<close>

definition textRequest :: "jsstring \<Rightarrow> jsstring \<Rightarrow> request" where
  "textRequest word sentence =
     (if truthy (trim sentence) then
        \<lparr>model = textModel, contents = Prompt (blankingPrompt word sentence), config = Some jsonConfig\<rparr>
      else
        \<lparr>model = textModel, contents = Prompt (authoringPrompt word), config = Some jsonConfig\<rparr>)"

subsection \<open>generateQuiz: join and merge\<close>

text \<open>
  \<open>await Promise.all([p, q])\<close>: both values when both promises are fulfilled,
  otherwise the rejection that comes first.
\<close>

definition Promise_all :: "bool \<Rightarrow> js_error + 'a \<Rightarrow> js_error + 'b \<Rightarrow> js_error + 'a \<times> 'b" where
  "Promise_all firstSettlesFirst p q =
     (case p of
        Inr a \<Rightarrow> (case q of Inr b \<Rightarrow> Inr (a, b) | Inl e2 \<Rightarrow> Inl e2)
      | Inl e1 \<Rightarrow> (case q of Inr b \<Rightarrow> Inl e1 | Inl e2 \<Rightarrow> Inl (if firstSettlesFirst then e1 else e2)))"

text \<open>The \<open>for\<close> loop over the parts: the first part with inline data ends it.\<close>

fun scanParts :: "part list \<Rightarrow> jsstring" where
  "scanParts [] = []"
| "scanParts (p # ps) =
     (case inlineData p of
        Some b \<Rightarrow> lit ''data:image/png;base64,'' @ templateStr (data b)
      | None \<Rightarrow> scanParts ps)"

text \<open>
  ``Extract Image'': the value of \<open>finalImageUrl\<close> after the branch on
  \<open>'isOriginal' in imageResponse\<close>. In
  \<open>imageResponse.candidates && imageResponse.candidates[0].content.parts\<close> an array is
  truthy even when empty, and reading \<open>.content\<close> of a missing first candidate, or
  \<open>.parts\<close> of a missing content, throws.
\<close>

definition extractImage :: "imageResult \<Rightarrow> js_error + jsstring" where
  "extractImage imageResponse =
     (case imageResponse of
        Original d \<Rightarrow> Inr d
      | FromService r \<Rightarrow>
          (case candidates r of
             None \<Rightarrow> Inr []
           | Some cs \<Rightarrow>
               (case cs of
                  [] \<Rightarrow> Inl TypeError
                | c # _ \<Rightarrow>
                    (case content c of
                       None \<Rightarrow> Inl TypeError
                     | Some ct \<Rightarrow>
                         (case parts ct of None \<Rightarrow> Inr [] | Some ps \<Rightarrow> Inr (scanParts ps))))))"

text \<open>``Extract Text'' and the returned object.\<close>

definition extractText :: "env \<Rightarrow> response \<Rightarrow> js_error + (json option \<times> json option)" where
  "extractText e textResponse =
     (let jsonText = orElse (responseText textResponse) (lit ''{}'')
      in case JSON_parse e jsonText of
           Inl err \<Rightarrow> Inl err
         | Inr textData \<Rightarrow>
             (case getProp textData (lit ''originalSentence'') of
                Inl err \<Rightarrow> Inl err
              | Inr original \<Rightarrow>
                  (case getProp textData (lit ''blankedSentence'') of
                     Inl err \<Rightarrow> Inl err
                   | Inr blanked \<Rightarrow> Inr (original, blanked))))"

definition merge :: "env \<Rightarrow> jsstring \<Rightarrow> imageResult \<Rightarrow> response \<Rightarrow> js_error + QuizResult" where
  "merge e word imageResponse textResponse =
     (case extractImage imageResponse of
        Inl err \<Rightarrow> Inl err
      | Inr finalImageUrl \<Rightarrow>
          if \<not> truthy finalImageUrl then Inl imageFailed
          else
            (case extractText e textResponse of
               Inl err \<Rightarrow> Inl err
             | Inr (original, blanked) \<Rightarrow>
                 Inr \<lparr>imageUrl = finalImageUrl, originalSentence = original,
                      blankedSentence = blanked, targetWord = word\<rparr>))"

text \<open>
  \<open>generateQuiz\<close>: the outcome of the returned promise (\<open>Inl\<close> when it is
  rejected) and the requests sent to the service, in the order they were sent.
\<close>

definition generateQuiz ::
  "env \<Rightarrow> jsstring \<Rightarrow> jsstring \<Rightarrow> jsstring option \<Rightarrow> mode
     \<Rightarrow> (js_error + QuizResult) \<times> request list" where
  "generateQuiz e word sentence drawingBase64 m =
     (case prepareImage e word sentence drawingBase64 m of
        Inl err \<Rightarrow> (Inl err, [])
      | Inr (imagePromise, sent) \<Rightarrow>
          (let textReq = textRequest word sentence;
               textPromise = generateContent e textReq;
               trace = sent @ [textReq]
           in case Promise_all (imageSettlesFirst e) imagePromise textPromise of
                Inl err \<Rightarrow> (Inl err, trace)
              | Inr (imageResponse, textResponse) \<Rightarrow>
                  (merge e word imageResponse textResponse, trace)))"

text \<open>A request to the image-generation model.\<close>

definition isImageRequest :: "request \<Rightarrow> bool" where
  "isImageRequest r \<longleftrightarrow> model r = imageModel"

section \<open>components/DrawingCanvas.tsx\<close>

text \<open>
  The canvas element: its backing-store size, its layout box, whether
  \<open>getContext('2d')\<close> gives a context, and the drawing calls made on the context
  since the backing store was last reset. The pen is fixed (black, width 4, round caps
  and joins), so the style settings are not recorded.
\<close>

datatype draw_op = FillWhite | BeginPath | MoveTo real real | LineTo real real | Stroke

record canvas =
  width :: nat
  height :: nat
  offsetWidth :: nat
  rectLeft :: real
  rectTop :: real
  context2d :: bool
  ops :: "draw_op list"

text \<open>
  The component: the canvas that \<open>canvasRef.current\<close> holds, the two state
  variables, and the arguments of the calls of \<open>onImageReady\<close> so far, oldest first.
  Each handler runs on the state of the latest render and its \<open>set\<close> calls take
  effect before the next event is handled.
\<close>

record surface =
  canvasRef :: "canvas option"
  isDrawing :: bool
  hasDrawn :: bool
  notified :: "jsstring option list"

text \<open>A mouse event, or a touch event with its first touch point and the others.\<close>

datatype pointer = Mouse real real | Touch "real \<times> real" "(real \<times> real) list"

text \<open>The effect that runs once after the first render.\<close>

definition mount :: "canvas option \<Rightarrow> surface" where
  "mount ref =
     \<lparr>canvasRef =
        (case ref of
           None \<Rightarrow> None
         | Some c \<Rightarrow>
             (let c' = c\<lparr>width := offsetWidth c, height := 300, ops := []\<rparr>
              in Some (if context2d c' then c'\<lparr>ops := [FillWhite]\<rparr> else c'))),
      isDrawing = False, hasDrawn = False, notified = []\<rparr>"

definition getCoordinates :: "pointer \<Rightarrow> canvas \<Rightarrow> real \<times> real" where
  "getCoordinates e c =
     (case e of
        Touch t ts \<Rightarrow> (fst t - rectLeft c, snd t - rectTop c)
      | Mouse clientX clientY \<Rightarrow> (clientX - rectLeft c, clientY - rectTop c))"

definition startDrawing :: "pointer \<Rightarrow> surface \<Rightarrow> surface" where
  "startDrawing e s =
     (case canvasRef s of
        None \<Rightarrow> s
      | Some c \<Rightarrow>
          if \<not> context2d c then s
          else
            (let (x, y) = getCoordinates e c
             in s\<lparr>isDrawing := True, hasDrawn := True,
                  canvasRef := Some (c\<lparr>ops := ops c @ [BeginPath, MoveTo x y]\<rparr>)\<rparr>))"

definition draw :: "pointer \<Rightarrow> surface \<Rightarrow> surface" where
  "draw e s =
     (if \<not> isDrawing s then s
      else
        (case canvasRef s of
           None \<Rightarrow> s
         | Some c \<Rightarrow>
             if \<not> context2d c then s
             else
               (let (x, y) = getCoordinates e c
                in s\<lparr>canvasRef := Some (c\<lparr>ops := ops c @ [LineTo x y, Stroke]\<rparr>)\<rparr>)))"

text \<open>
  \<open>toDataURL\<close> stands for \<open>canvas.toDataURL('image/png')\<close>, the platform's
  encoder of the backing store.
\<close>

definition exportCanvas :: "(canvas \<Rightarrow> jsstring) \<Rightarrow> surface \<Rightarrow> surface" where
  "exportCanvas toDataURL s =
     (case canvasRef s of
        None \<Rightarrow> s
      | Some c \<Rightarrow>
          if hasDrawn s then s\<lparr>notified := notified s @ [Some (toDataURL c)]\<rparr> else s)"

definition stopDrawing :: "(canvas \<Rightarrow> jsstring) \<Rightarrow> surface \<Rightarrow> surface" where
  "stopDrawing toDataURL s =
     (if \<not> isDrawing s then s else exportCanvas toDataURL (s\<lparr>isDrawing := False\<rparr>))"

definition clearCanvas :: "surface \<Rightarrow> surface" where
  "clearCanvas s =
     (case canvasRef s of
        None \<Rightarrow> s
      | Some c \<Rightarrow>
          if \<not> context2d c then s
          else s\<lparr>canvasRef := Some (c\<lparr>ops := ops c @ [FillWhite]\<rparr>), hasDrawn := False,
                 notified := notified s @ [None]\<rparr>)"

text \<open>
  The bindings of the rendered elements: press is \<open>onMouseDown\<close> or
  \<open>onTouchStart\<close>, move is \<open>onMouseMove\<close> or \<open>onTouchMove\<close>, release is
  \<open>onMouseUp\<close>, \<open>onMouseLeave\<close> or \<open>onTouchEnd\<close>, clear is the button.
\<close>

datatype event = Press pointer | Move pointer | Release | Clear

fun handle :: "(canvas \<Rightarrow> jsstring) \<Rightarrow> surface \<Rightarrow> event \<Rightarrow> surface" where
  "handle toDataURL s (Press e) = startDrawing e s"
| "handle toDataURL s (Move e) = draw e s"
| "handle toDataURL s Release = stopDrawing toDataURL s"
| "handle toDataURL s Clear = clearCanvas s"

definition run :: "(canvas \<Rightarrow> jsstring) \<Rightarrow> surface \<Rightarrow> event list \<Rightarrow> surface" where
  "run toDataURL s evs = foldl (handle toDataURL) s evs"

section \<open>App.tsx: downloadImage\<close>

subsection \<open>Numbers\<close>

text \<open>
  The numbers of the card layout are IEEE 754 doubles. None of them is negative or
  \<open>NaN\<close>, so a number is either a finite double, given by its exact rational
  value, or \<open>+Infinity\<close>. Every arithmetic operation of the source is the exact
  operation followed by rounding to the nearest double, ties to even.

  \<open>roundHalfEven\<close> rounds to the nearest integer, ties to even. Between \<open>2^52\<close>
  and \<open>2^53\<close> the doubles are the integers, and rounding commutes with scaling by
  two; \<open>roundPos\<close> scales a positive number into that range, rounds it and scales
  back, which is rounding to 53 significant bits. The exponent is not bounded: the
  numbers below come from 32-bit image sizes, a line count and small constants, far
  inside the range of normal doubles.
\<close>

datatype jsnum = Num rat | PosInfinity

definition roundHalfEven :: "rat \<Rightarrow> int" where
  "roundHalfEven x =
     (let f = \<lfloor>x\<rfloor>; d = x - of_int f
      in if d < 1 / 2 then f else if 1 / 2 < d then f + 1 else if even f then f else f + 1)"

function roundPos :: "rat \<Rightarrow> rat" where
  "roundPos x =
     (if x \<le> 0 then 0
      else if 2 ^ 53 \<le> x then 2 * roundPos (x / 2)
      else if x < 2 ^ 52 then roundPos (2 * x) / 2
      else of_int (roundHalfEven x))"
  by pat_completeness auto
termination
proof (relation "measure (\<lambda>x. if 2 ^ 53 \<le> x then nat \<lceil>x\<rceil> else nat \<lceil>2 ^ 52 / x\<rceil>)")
  show "wf (measure (\<lambda>x::rat. if 2 ^ 53 \<le> x then nat \<lceil>x\<rceil> else nat \<lceil>2 ^ 52 / x\<rceil>))"
    by simp
next
  fix x :: rat
  assume "\<not> x \<le> 0" and big: "2 ^ 53 \<le> x"
  show "(x / 2, x) \<in> measure (\<lambda>x. if 2 ^ 53 \<le> x then nat \<lceil>x\<rceil> else nat \<lceil>2 ^ 52 / x\<rceil>)"
  proof (cases "2 ^ 53 \<le> x / 2")
    case True
    have "\<lceil>x / 2\<rceil> < \<lceil>x\<rceil>"
    proof -
      have "x / 2 + 1 \<le> x" using big by simp
      then have "\<lceil>x / 2\<rceil> + 1 \<le> \<lceil>x\<rceil>"
        by (metis ceiling_add_one ceiling_mono)
      then show ?thesis by simp
    qed
    moreover have "0 < \<lceil>x\<rceil>" using big by (simp add: ceiling_less_iff not_le[symmetric])
    ultimately show ?thesis using True big by simp
  next
    case False
    have "2 ^ 52 / (x / 2) \<le> 1" using big by (simp add: field_simps)
    then have "\<lceil>2 ^ 52 / (x / 2)\<rceil> \<le> 1" by (simp only: ceiling_le_iff of_int_1)
    moreover have "2 \<le> \<lceil>x\<rceil>"
    proof -
      have "(2::rat) \<le> x" using big by (rule order_trans[rotated]) simp
      then have "\<lceil>2::rat\<rceil> \<le> \<lceil>x\<rceil>" by (rule ceiling_mono)
      then show ?thesis by simp
    qed
    ultimately have "nat \<lceil>2 ^ 52 / (x / 2)\<rceil> < nat \<lceil>x\<rceil>" by linarith
    then show ?thesis using False big by (simp only: in_measure if_True if_False)
  qed
next
  fix x :: rat
  assume pos: "\<not> x \<le> 0" and "\<not> 2 ^ 53 \<le> x" and small: "x < 2 ^ 52"
  have nb: "\<not> 2 ^ 53 \<le> 2 * x" using small by simp
  have nb': "\<not> 2 ^ 53 \<le> x" using small by simp
  let ?y = "2 ^ 52 / x"
  have y: "1 < ?y" using pos small by (simp add: field_simps)
  have "2 ^ 52 / (2 * x) = ?y / 2" by simp
  moreover have "\<lceil>?y / 2\<rceil> < \<lceil>?y\<rceil>"
  proof -
    have "2 \<le> \<lceil>?y\<rceil>" using y by (simp add: le_ceiling_iff)
    have "?y / 2 \<le> of_int \<lceil>?y\<rceil> / 2" by (simp add: divide_right_mono)
    also have "\<dots> \<le> of_int (\<lceil>?y\<rceil> - 1)"
      using \<open>2 \<le> \<lceil>?y\<rceil>\<close> by (simp add: field_simps)
    finally have "\<lceil>?y / 2\<rceil> \<le> \<lceil>?y\<rceil> - 1" by (simp only: ceiling_le_iff)
    then show ?thesis by simp
  qed
  moreover have "0 < \<lceil>?y\<rceil>" using y pos by (simp add: less_ceiling_iff)
  ultimately show "(2 * x, x) \<in> measure (\<lambda>x. if 2 ^ 53 \<le> x then nat \<lceil>x\<rceil> else nat \<lceil>2 ^ 52 / x\<rceil>)"
    using nb nb' by simp
qed

declare roundPos.simps [simp del]

text \<open>Rounding an exact result to the nearest double.\<close>

definition fl :: "rat \<Rightarrow> rat" where
  "fl x = (if x < 0 then - roundPos (- x) else roundPos x)"

text \<open>\<open>a * x\<close> and \<open>x + b\<close> for finite \<open>a > 0\<close> and \<open>b\<close>.\<close>

definition timesNum :: "rat \<Rightarrow> jsnum \<Rightarrow> jsnum" where
  "timesNum a x = (case x of Num r \<Rightarrow> Num (fl (a * r)) | PosInfinity \<Rightarrow> PosInfinity)"

definition plusNum :: "jsnum \<Rightarrow> rat \<Rightarrow> jsnum" where
  "plusNum x b = (case x of Num r \<Rightarrow> Num (fl (r + b)) | PosInfinity \<Rightarrow> PosInfinity)"

text \<open>
  Assigning a number to \<open>canvas.width\<close> or \<open>canvas.height\<close>. The attribute is an
  \<open>unsigned long\<close>: a non-finite number becomes 0, a finite one is truncated and
  taken modulo \<open>2^32\<close>; the element then replaces a value above \<open>2^31 - 1\<close> by the
  attribute's default (300 for the width, 150 for the height).
\<close>

definition toCanvasSize :: "nat \<Rightarrow> jsnum \<Rightarrow> nat" where
  "toCanvasSize dflt v =
     (case v of
        PosInfinity \<Rightarrow> 0
      | Num x \<Rightarrow> (let n = nat \<lfloor>x\<rfloor> mod 2 ^ 32 in if n \<le> 2147483647 then n else dflt))"

subsection \<open>The card\<close>

text \<open>
  The outcome of decoding \<open>result.imageUrl\<close>: the image's \<open>width\<close> and
  \<open>height\<close>, both \<open>unsigned long\<close>.
\<close>

datatype image_load = Loaded "32 word" "32 word" | LoadFailed

text \<open>
  The finished canvas: its size, the height at which the image is drawn, and the text
  lines with the vertical position of each. The white background, the separator rule
  and the watermark are the same on every card and are not recorded.
\<close>

record card =
  canvasWidth :: nat
  canvasHeight :: nat
  imageHeight :: jsnum
  captions :: "(jsstring \<times> jsnum) list"

text \<open>
  The platform as \<open>downloadImage\<close> sees it: the image decoder, whether a new
  canvas gives a 2d context, the text measure under the font \<open>bold 48px serif\<close>,
  and the encoder of the finished card.
\<close>

record browser =
  loadImage :: "jsstring \<Rightarrow> image_load"
  newContext2d :: bool
  measureText :: "jsstring \<Rightarrow> rat"
  cardToDataURL :: "card \<Rightarrow> jsstring"

datatype card_error = ImageLoadError | NoCanvasContext | NotAString

record link =
  download :: jsstring
  href :: jsstring

definition cardWidth :: rat where "cardWidth = 1200"
definition padding :: rat where "padding = 60"
definition lineHeight :: rat where "lineHeight = 70"
definition textMaxWidth :: rat where "textMaxWidth = fl (cardWidth - fl (padding * 2))"

text \<open>\<open>img.height > 0 ? img.height / img.width : 1\<close>\<close>

definition aspectRatio :: "32 word \<Rightarrow> 32 word \<Rightarrow> jsnum" where
  "aspectRatio imgWidth imgHeight =
     (if imgHeight > 0 then
        (if imgWidth = 0 then PosInfinity
         else Num (fl (of_nat (unat imgHeight) / of_nat (unat imgWidth))))
      else Num 1)"

text \<open>\<open>cardWidth * aspectRatio\<close>\<close>

definition scaledImageHeight :: "32 word \<Rightarrow> 32 word \<Rightarrow> jsnum" where
  "scaledImageHeight imgWidth imgHeight = timesNum cardWidth (aspectRatio imgWidth imgHeight)"

text \<open>\<open>(lines.length * lineHeight) + (padding * 2)\<close>\<close>

definition textSectionHeight :: "nat \<Rightarrow> rat" where
  "textSectionHeight n = fl (fl (of_nat n * lineHeight) + fl (padding * 2))"

text \<open>\<open>imgHeight + textSectionHeight\<close>\<close>

definition totalHeight :: "32 word \<Rightarrow> 32 word \<Rightarrow> nat \<Rightarrow> jsnum" where
  "totalHeight imgWidth imgHeight n =
     plusNum (scaledImageHeight imgWidth imgHeight) (textSectionHeight n)"

text \<open>\<open>imgHeight + padding + (i * lineHeight) + (lineHeight/2)\<close>\<close>

definition yPos :: "jsnum \<Rightarrow> nat \<Rightarrow> jsnum" where
  "yPos imgHeight i =
     plusNum (plusNum (plusNum imgHeight padding) (fl (of_nat i * lineHeight))) (fl (lineHeight / 2))"

text \<open>
  The wrapping loop over \<open>words\<close> from index \<open>n\<close> on, with the current \<open>line\<close>
  and the \<open>lines\<close> pushed so far; the result is \<open>lines\<close> after the final push.
\<close>

fun wrapLoop :: "(jsstring \<Rightarrow> rat) \<Rightarrow> jsstring list \<Rightarrow> nat \<Rightarrow> jsstring \<Rightarrow> jsstring list \<Rightarrow> jsstring list" where
  "wrapLoop widthOf [] n line lines = lines @ [line]"
| "wrapLoop widthOf (w # ws) n line lines =
     (let testLine = line @ w @ lit '' ''
      in if widthOf testLine > textMaxWidth \<and> n > 0
         then wrapLoop widthOf ws (Suc n) (w @ lit '' '') (lines @ [line])
         else wrapLoop widthOf ws (Suc n) testLine lines)"

definition wrapText :: "(jsstring \<Rightarrow> rat) \<Rightarrow> jsstring \<Rightarrow> jsstring list" where
  "wrapText widthOf sentence = wrapLoop widthOf (split sentence) 0 [] []"

text \<open>The body of the \<open>try\<close> block up to the finished canvas.\<close>

definition composeCard :: "browser \<Rightarrow> QuizResult \<Rightarrow> card_error + card" where
  "composeCard b result =
     (case loadImage b (imageUrl result) of
        LoadFailed \<Rightarrow> Inl ImageLoadError
      | Loaded imgW imgH \<Rightarrow>
          if \<not> newContext2d b then Inl NoCanvasContext
          else
            (let imgHeight = scaledImageHeight imgW imgH
             in case blankedSentence result of
                  Some (JString sentence) \<Rightarrow>
                    (let lines = wrapText (measureText b) sentence
                     in Inr \<lparr>canvasWidth = toCanvasSize 300 (Num cardWidth),
                             canvasHeight = toCanvasSize 150 (totalHeight imgW imgH (length lines)),
                             imageHeight = imgHeight,
                             captions =
                               map (\<lambda>(i, l). (trim l, yPos imgHeight i)) (enumerate 0 lines)\<rparr>)
                | _ \<Rightarrow> Inl NotAString))"

text \<open>
  \<open>downloadImage\<close>: the link that is clicked, if any. Whatever the \<open>try\<close>
  block throws is caught and answered with the fallback link.
\<close>

definition downloadImage :: "browser \<Rightarrow> QuizResult option \<Rightarrow> link option" where
  "downloadImage b result =
     (case result of
        None \<Rightarrow> None
      | Some r \<Rightarrow>
          (case composeCard b r of
             Inr c \<Rightarrow>
               Some \<lparr>download = lit ''visual-vocab-'' @ replaceWhiteSpaceRuns (targetWord r) @ lit ''.png'',
                     href = cardToDataURL b c\<rparr>
           | Inl err \<Rightarrow>
               Some \<lparr>download = lit ''visual-vocab-'' @ targetWord r @ lit ''.png'',
                     href = imageUrl r\<rparr>))"

section \<open>Notions of the specification\<close>

text \<open>A value that is a string and not the empty one.\<close>

definition nonEmptyString :: "json option \<Rightarrow> bool" where
  "nonEmptyString v = (case v of Some (JString s) \<Rightarrow> s \<noteq> [] | _ \<Rightarrow> False)"

text \<open>
  Greedy wrapping as the specification words it: words are appended to the current
  line until adding the next one would exceed the maximal width, then a new line is
  started. A candidate line is measured with the space that follows each word.
\<close>

fun greedyLines :: "(jsstring \<Rightarrow> rat) \<Rightarrow> jsstring list \<Rightarrow> jsstring \<Rightarrow> jsstring list" where
  "greedyLines widthOf [] line = [line]"
| "greedyLines widthOf (w # ws) line =
     (if widthOf (line @ w @ lit '' '') > textMaxWidth
      then line # greedyLines widthOf ws (w @ lit '' '')
      else greedyLines widthOf ws (line @ w @ lit '' ''))"

definition greedyWrap :: "(jsstring \<Rightarrow> rat) \<Rightarrow> jsstring list \<Rightarrow> jsstring list" where
  "greedyWrap widthOf ws =
     (case ws of [] \<Rightarrow> [[]] | w # rest \<Rightarrow> greedyLines widthOf rest (w @ lit '' ''))"

section \<open>Example surroundings\<close>

text \<open>
  Concrete surroundings on which the properties below are exercised. \<open>sampleParse\<close>
  is the table of \<open>JSON.parse\<close> on the two texts that these examples hand to it;
  no example depends on its value elsewhere.
\<close>

definition sampleSentence :: jsstring where
  "sampleSentence = lit ''She worked hard to improve the design.''"

definition sampleBlanked :: jsstring where
  "sampleBlanked = lit ''She worked hard to ______ the design.''"

definition sampleQuizText :: jsstring where
  \<open>sampleQuizText =
     lit ''{"originalSentence":"She worked hard to improve the design.","blankedSentence":"She worked hard to ______ the design."}''\<close>

definition sampleQuizJson :: json where
  "sampleQuizJson =
     JObject [(lit ''originalSentence'', JString sampleSentence),
              (lit ''blankedSentence'', JString sampleBlanked)]"

definition sampleParse :: "jsstring \<Rightarrow> js_error + json" where
  "sampleParse s =
     (if s = sampleQuizText then Inr sampleQuizJson
      else if s = lit ''{}'' then Inr (JObject [])
      else Inl SyntaxError)"

definition sampleDrawing :: jsstring where
  "sampleDrawing = lit ''data:image/png;base64,iVBORw0KGgo=''"

definition sampleParts :: "part list" where
  "sampleParts =
     [\<lparr>partText = Some (lit ''Here is the illustration.''), inlineData = None\<rparr>,
      \<lparr>partText = None, inlineData = Some \<lparr>mimeType = Some (lit ''image/png''), data = Some (lit ''AAAA'')\<rparr>\<rparr>,
      \<lparr>partText = None, inlineData = Some \<lparr>mimeType = Some (lit ''image/png''), data = Some (lit ''BBBB'')\<rparr>\<rparr>]"

definition sampleImageResponse :: response where
  "sampleImageResponse =
     \<lparr>candidates = Some [\<lparr>content = Some \<lparr>parts = Some sampleParts\<rparr>\<rparr>],
      responseText = Some (lit ''Here is the illustration.'')\<rparr>"

definition sampleTextResponse :: response where
  "sampleTextResponse = \<lparr>candidates = None, responseText = Some sampleQuizText\<rparr>"

definition sampleService :: "request \<Rightarrow> js_error + response" where
  "sampleService r = (if isImageRequest r then Inr sampleImageResponse else Inr sampleTextResponse)"

definition sampleEnv :: env where
  "sampleEnv = \<lparr>generateContent = sampleService, JSON_parse = sampleParse, imageSettlesFirst = True\<rparr>"

text \<open>A service whose responses carry neither candidates nor text.\<close>

definition silentService :: "request \<Rightarrow> js_error + response" where
  "silentService r = Inr \<lparr>candidates = None, responseText = None\<rparr>"

definition silentEnv :: env where
  "silentEnv = \<lparr>generateContent = silentService, JSON_parse = sampleParse, imageSettlesFirst = True\<rparr>"

text \<open>A service that answers an image request with an empty list of candidates.\<close>

definition blockedService :: "request \<Rightarrow> js_error + response" where
  "blockedService r =
     (if isImageRequest r then Inr \<lparr>candidates = Some [], responseText = None\<rparr>
      else Inr sampleTextResponse)"

definition blockedEnv :: env where
  "blockedEnv = \<lparr>generateContent = blockedService, JSON_parse = sampleParse, imageSettlesFirst = True\<rparr>"



definition silentResult :: QuizResult where
  "silentResult = \<lparr>imageUrl = sampleDrawing, originalSentence = None, blankedSentence = None,
      targetWord = lit ''improve''\<rparr>"

text \<open>A canvas, an encoder, one stroke; a browser, and one in which no image decodes.\<close>

definition sampleCanvas :: canvas where
  "sampleCanvas = \<lparr>width = 300, height = 150, offsetWidth = 640, rectLeft = 10, rectTop = 20,
      context2d = True, ops = []\<rparr>"

definition sampleEncoder :: "canvas \<Rightarrow> jsstring" where
  "sampleEncoder c = lit ''data:image/png;base64,'' @ replicate (length (ops c)) (of_char CHR ''A'')"

definition sampleStroke :: "event list" where
  "sampleStroke = [Press (Mouse 15 25), Move (Mouse 16 27), Move (Mouse 18 30), Release]"

definition sampleCaption :: jsstring where
  "sampleCaption = lit ''She worked hard to ______ the design of the small solar battery before the science fair started on Friday morning.''"

definition sampleBrowser :: browser where
  "sampleBrowser = \<lparr>loadImage = (\<lambda>url. Loaded 512 512), newContext2d = True,
      measureText = (\<lambda>s. of_nat (length s) * 24),
      cardToDataURL = (\<lambda>c. lit ''data:image/png;base64,Q0FSRA=='')\<rparr>"

definition offlineBrowser :: browser where
  "offlineBrowser = sampleBrowser\<lparr>loadImage := (\<lambda>url. LoadFailed)\<rparr>"

definition iceCreamResult :: QuizResult where
  "iceCreamResult = \<lparr>imageUrl = sampleDrawing, originalSentence = Some (JString (lit ''I like ice cream.'')),
      blankedSentence = Some (JString (lit ''I like ______.'')), targetWord = lit ''ice cream''\<rparr>"

definition sampleCard :: QuizResult where
  "sampleCard = \<lparr>imageUrl = sampleDrawing, originalSentence = Some (JString sampleSentence),
      blankedSentence = Some (JString sampleCaption), targetWord = lit ''improve''\<rparr>"

text \<open>Two more images: one of 15 by 22 pixels, one of 640 by 300; a one-line caption.\<close>

definition portraitBrowser :: browser where
  "portraitBrowser = sampleBrowser\<lparr>loadImage := (\<lambda>url. Loaded 15 22)\<rparr>"

definition landscapeBrowser :: browser where
  "landscapeBrowser = sampleBrowser\<lparr>loadImage := (\<lambda>url. Loaded 640 300)\<rparr>"

definition shortCard :: QuizResult where
  "shortCard = \<lparr>imageUrl = sampleDrawing, originalSentence = Some (JString (lit ''I like ice cream.'')),
      blankedSentence = Some (JString (lit ''I like ______.'')), targetWord = lit ''ice cream''\<rparr>"

text \<open>A service that answers an image request with one candidate that has no content.\<close>

definition refusedService :: "request \<Rightarrow> js_error + response" where
  "refusedService r =
     (if isImageRequest r then Inr \<lparr>candidates = Some [\<lparr>content = None\<rparr>], responseText = None\<rparr>
      else Inr sampleTextResponse)"

definition refusedEnv :: env where
  "refusedEnv = \<lparr>generateContent = refusedService, JSON_parse = sampleParse, imageSettlesFirst = True\<rparr>"

section \<open>Properties\<close>

lemma stripPrefix_Some_iff: "stripPrefix p s = Some r \<longleftrightarrow> s = p @ r"
  by (induction p s rule: stripPrefix.induct) auto

lemma stripPrefix_append: "stripPrefix p (p @ r) = Some r"
  by (simp add: stripPrefix_Some_iff)

lemma stripPrefix_None_iff: "stripPrefix p s = None \<longleftrightarrow> \<not> prefix p s"
proof -
  have "stripPrefix p s \<noteq> None \<longleftrightarrow> prefix p s"
    by (auto simp: prefix_def stripPrefix_Some_iff)
  then show ?thesis by blast
qed

lemma lit_append: "lit (a @ b) = lit a @ lit b"
  by (simp add: lit_def)

lemma provided_Some_iff: "provided v = Some d \<longleftrightarrow> v = Some d \<and> d \<noteq> []"
  by (auto simp: provided_def truthy_def split: option.splits)

lemma provided_None_iff: "provided v = None \<longleftrightarrow> v = None \<or> v = Some []"
  by (auto simp: provided_def truthy_def split: option.splits)

text \<open>A string trims to nothing exactly when it is empty or white space only.\<close>

lemma trim_empty_iff: "trim s = [] \<longleftrightarrow> (\<forall>c \<in> set s. isWhiteSpace c)"
proof -
  have "(\<forall>x \<in> set (dropWhile isWhiteSpace s). isWhiteSpace x) \<longleftrightarrow> dropWhile isWhiteSpace s = []"
  proof
    assume all: "\<forall>x \<in> set (dropWhile isWhiteSpace s). isWhiteSpace x"
    show "dropWhile isWhiteSpace s = []"
    proof (rule ccontr)
      assume ne: "dropWhile isWhiteSpace s \<noteq> []"
      then have "\<not> isWhiteSpace (hd (dropWhile isWhiteSpace s))" by (rule hd_dropWhile)
      moreover have "hd (dropWhile isWhiteSpace s) \<in> set (dropWhile isWhiteSpace s)"
        using ne by simp
      ultimately show False using all by blast
    qed
  next
    assume nil: "dropWhile isWhiteSpace s = []"
    show "\<forall>x \<in> set (dropWhile isWhiteSpace s). isWhiteSpace x"
      unfolding nil by simp
  qed
  then show ?thesis by (simp add: trim_def)
qed

subsection \<open>Stripping the data-URI header\<close>

lemma cleanBase64_header: "h \<in> set dataUriHeaders \<Longrightarrow> cleanBase64 (h @ p) = p"
  by (auto simp: cleanBase64_def replaceAnchored_def headerRegex_def dataUriHeaders_def lit_def)

lemma matchAt_header_prefix:
  assumes "matchAt headerRegex s Some = Some r"
  shows "\<exists>h \<in> set dataUriHeaders. s = h @ r"
proof -
  have png: "lit ''data:image/png;base64,'' = lit ''data:image/'' @ lit ''png'' @ lit '';base64,''"
    and jpeg: "lit ''data:image/jpeg;base64,'' = lit ''data:image/'' @ lit ''jpeg'' @ lit '';base64,''"
    and jpg: "lit ''data:image/jpg;base64,'' = lit ''data:image/'' @ lit ''jpg'' @ lit '';base64,''"
    by (simp_all add: lit_def)
  from assms show ?thesis
    unfolding headerRegex_def dataUriHeaders_def png jpeg jpg
    by (auto simp: stripPrefix_Some_iff split: option.splits)
qed

lemma cleanBase64_no_header:
  assumes "\<forall>h \<in> set dataUriHeaders. \<not> prefix h s"
  shows "cleanBase64 s = s"
proof (cases "matchAt headerRegex s Some")
  case None
  then show ?thesis by (simp add: cleanBase64_def replaceAnchored_def)
next
  case (Some r)
  then obtain h where "h \<in> set dataUriHeaders" "s = h @ r"
    using matchAt_header_prefix by blast
  with assms show ?thesis by auto
qed

text \<open>
  Claim C6. For every payload \<open>p\<close> and each of the three headers
  \<open>data:image/png;base64,\<close>, \<open>data:image/jpeg;base64,\<close> and
  \<open>data:image/jpg;base64,\<close>, \<open>cleanBase64\<close> applied to the header followed by
  \<open>p\<close> returns exactly \<open>p\<close>; a string that starts with none of the three headers
  is returned unchanged. The drawing surface exports
  \<open>canvas.toDataURL('image/png')\<close>, the first header followed by the base64
  payload, so stripping an exported drawing gives the payload back: the
  sketch-to-image request built from a drawing with a header carries exactly \<open>p\<close>
  as its inline data.
\<close>

theorem cleanBase64_roundtrip:
  "(\<forall>h \<in> set dataUriHeaders. cleanBase64 (h @ p) = p)
   \<and> ((\<forall>h \<in> set dataUriHeaders. \<not> prefix h s) \<longrightarrow> cleanBase64 s = s)
   \<and> (\<forall>h \<in> set dataUriHeaders.
         contents (sketchRequest word sentence (h @ p)) =
           Parts [\<lparr>partText = None,
                   inlineData = Some \<lparr>mimeType = Some (lit ''image/png''), data = Some p\<rparr>\<rparr>,
                  \<lparr>partText = Some (imagePrompt word sentence), inlineData = None\<rparr>])"
proof -
  have "\<forall>h \<in> set dataUriHeaders. cleanBase64 (h @ p) = p"
    using cleanBase64_header by blast
  moreover have "(\<forall>h \<in> set dataUriHeaders. \<not> prefix h s) \<longrightarrow> cleanBase64 s = s"
    using cleanBase64_no_header by blast
  ultimately show ?thesis
    by (simp add: sketchRequest_def)
qed

theorem cleanBase64_roundtrip_witness:
  "cleanBase64 (lit ''data:image/png;base64,iVBORw0KGgo='') = lit ''iVBORw0KGgo=''
   \<and> cleanBase64 (lit ''data:image/jpeg;base64,iVBORw0KGgo='') = lit ''iVBORw0KGgo=''
   \<and> cleanBase64 (lit ''data:image/jpg;base64,iVBORw0KGgo='') = lit ''iVBORw0KGgo=''
   \<and> cleanBase64 (lit ''iVBORw0KGgo='') = lit ''iVBORw0KGgo=''"
proof -
  have hs: "\<forall>h \<in> set dataUriHeaders. \<not> prefix h (lit ''iVBORw0KGgo='')"
    by (simp add: dataUriHeaders_def lit_def)
  have "\<forall>h \<in> set dataUriHeaders. cleanBase64 (h @ lit ''iVBORw0KGgo='') = lit ''iVBORw0KGgo=''"
    and "cleanBase64 (lit ''iVBORw0KGgo='') = lit ''iVBORw0KGgo=''"
    using cleanBase64_roundtrip [of "lit ''iVBORw0KGgo=''" "lit ''iVBORw0KGgo=''"] hs by blast+
  then show ?thesis
    by (simp add: dataUriHeaders_def lit_def)
qed

subsection \<open>The requests of generateQuiz\<close>

lemma textModel_not_imageModel: "textModel \<noteq> imageModel"
  by (simp add: textModel_def imageModel_def lit_def)

lemma textRequest_model: "model (textRequest word sentence) = textModel"
  by (simp add: textRequest_def)

lemma textRequest_not_image: "\<not> isImageRequest (textRequest word sentence)"
  by (simp add: isImageRequest_def textRequest_model textModel_not_imageModel)

lemma sketchRequest_image: "isImageRequest (sketchRequest word sentence d)"
  by (simp add: isImageRequest_def sketchRequest_def)

lemma illustrationRequest_image: "isImageRequest (illustrationRequest word sentence)"
  by (simp add: isImageRequest_def illustrationRequest_def)

subsection \<open>The example surroundings\<close>

lemma sampleDrawing_nonempty: "sampleDrawing \<noteq> []"
  by (simp add: sampleDrawing_def lit_def)

lemma sample_text_promise:
  "generateContent sampleEnv (textRequest word sentence) = Inr sampleTextResponse"
  by (simp add: sampleEnv_def sampleService_def textRequest_not_image)

lemma sampleParse_quiz: "sampleParse sampleQuizText = Inr sampleQuizJson"
  by (simp add: sampleParse_def)

lemma sampleQuizText_nonempty: "sampleQuizText \<noteq> []"
  by (simp add: sampleQuizText_def lit_def)

lemma sample_extractText:
  "JSON_parse e = sampleParse \<Longrightarrow>
   extractText e sampleTextResponse = Inr (Some (JString sampleSentence), Some (JString sampleBlanked))"
  by (simp add: extractText_def sampleTextResponse_def orElse_def provided_def truthy_def
      sampleQuizText_nonempty sampleParse_quiz sampleQuizJson_def getProp_def lit_def)

subsection \<open>Submit mode\<close>

lemma prepareImage_Submit:
  "prepareImage e word sentence drawing Submit =
     (case provided drawing of None \<Rightarrow> Inl drawingRequired | Some d \<Rightarrow> Inr (Inr (Original d), []))"
  by (simp add: prepareImage_def)

lemma generateQuiz_Submit:
  assumes "d \<noteq> []"
  shows "generateQuiz e word sentence (Some d) Submit =
     (case generateContent e (textRequest word sentence) of
        Inl err \<Rightarrow> Inl err
      | Inr t \<Rightarrow>
          (case extractText e t of
             Inl err \<Rightarrow> Inl err
           | Inr (a, b) \<Rightarrow> Inr \<lparr>imageUrl = d, originalSentence = a, blankedSentence = b, targetWord = word\<rparr>),
      [textRequest word sentence])"
proof -
  have "provided (Some d) = Some d" using assms by (simp add: provided_Some_iff)
  then show ?thesis using assms
    by (simp add: generateQuiz_def prepareImage_Submit Promise_all_def merge_def
        extractImage_def truthy_def split: sum.splits prod.splits)
qed

lemma generateQuiz_Submit_empty:
  "generateQuiz e word sentence (Some []) Submit = (Inl drawingRequired, [])"
  by (simp add: generateQuiz_def prepareImage_Submit provided_def truthy_def)

text \<open>
  Claim C1. For every word (in particular every non-empty one) and every non-null
  drawing \<open>d\<close>, \<open>generateQuiz\<close> in submit mode sends no request to the
  image-generation model. Whenever it returns a \<open>QuizResult\<close>, the \<open>imageUrl\<close> of
  the result is \<open>d\<close> itself and the \<open>targetWord\<close> is the supplied word. It does
  return one whenever \<open>d\<close> is not the empty string, the text request is answered and
  the answer's text parses to a value whose two fields can be read.
\<close>

theorem submit_uses_drawing_verbatim:
  "(\<forall>req \<in> set (snd (generateQuiz e word sentence (Some d) Submit)). \<not> isImageRequest req)
   \<and> (\<forall>q. fst (generateQuiz e word sentence (Some d) Submit) = Inr q
        \<longrightarrow> imageUrl q = d \<and> targetWord q = word)
   \<and> (\<forall>t a b. d \<noteq> [] \<and> generateContent e (textRequest word sentence) = Inr t
          \<and> extractText e t = Inr (a, b)
        \<longrightarrow> fst (generateQuiz e word sentence (Some d) Submit) =
              Inr \<lparr>imageUrl = d, originalSentence = a, blankedSentence = b, targetWord = word\<rparr>)"
proof (cases "d = []")
  case True
  then show ?thesis by (simp add: generateQuiz_Submit_empty)
next
  case False
  then show ?thesis
    by (auto simp: generateQuiz_Submit textRequest_not_image split: sum.splits prod.splits)
qed

theorem submit_uses_drawing_verbatim_witness:
  "fst (generateQuiz sampleEnv (lit ''improve'') sampleSentence (Some sampleDrawing) Submit) =
     Inr \<lparr>imageUrl = sampleDrawing, originalSentence = Some (JString sampleSentence),
          blankedSentence = Some (JString sampleBlanked), targetWord = lit ''improve''\<rparr>"
  using submit_uses_drawing_verbatim [of sampleEnv "lit ''improve''" sampleSentence sampleDrawing]
    sampleDrawing_nonempty sample_text_promise [of "lit ''improve''" sampleSentence]
    sample_extractText [of sampleEnv]
  by (simp add: sampleEnv_def)

subsection \<open>generateQuiz step by step\<close>

lemma prepareImage_Generate:
  "prepareImage e word sentence drawing Generate =
     (case provided drawing of
        Some d \<Rightarrow> Inr (map_sum id FromService (generateContent e (sketchRequest word sentence d)),
                       [sketchRequest word sentence d])
      | None \<Rightarrow>
          if trim sentence \<noteq> []
          then Inr (map_sum id FromService (generateContent e (illustrationRequest word sentence)),
                    [illustrationRequest word sentence])
          else Inl inputRequired)"
  by (simp add: prepareImage_def truthy_def Let_def split: option.splits)

lemma generateQuiz_thrown:
  "prepareImage e word sentence drawing m = Inl err \<Longrightarrow>
   generateQuiz e word sentence drawing m = (Inl err, [])"
  by (simp add: generateQuiz_def)

lemma generateQuiz_trace:
  "prepareImage e word sentence drawing m = Inr (imagePromise, sent) \<Longrightarrow>
   snd (generateQuiz e word sentence drawing m) = sent @ [textRequest word sentence]"
  by (simp add: generateQuiz_def Let_def split: sum.splits prod.splits)

lemma generateQuiz_joined:
  "prepareImage e word sentence drawing m = Inr (imagePromise, sent) \<Longrightarrow>
   fst (generateQuiz e word sentence drawing m) =
     (case Promise_all (imageSettlesFirst e) imagePromise (generateContent e (textRequest word sentence)) of
        Inl err \<Rightarrow> Inl err
      | Inr (imageResponse, textResponse) \<Rightarrow> merge e word imageResponse textResponse)"
  by (simp add: generateQuiz_def Let_def split: sum.splits prod.splits)

subsection \<open>Validation\<close>

text \<open>
  Claim C2. For every word (in particular every non-empty one), \<open>generateQuiz\<close>
  throws one of its two validation errors with no request sent exactly when the mode
  is submit and the drawing is null or empty, or the mode is generate, the drawing is
  null or empty and the sentence is empty or white space only. The error is then the
  one of the mode. In every other case the text request is sent, and in generate mode
  an image request as well.
\<close>

theorem generateQuiz_validation:
  "(let r = generateQuiz e word sentence drawing m;
        noDrawing = (drawing = None \<or> drawing = Some []);
        noSentence = (\<forall>c \<in> set sentence. isWhiteSpace c);
        missing = (m = Submit \<and> noDrawing \<or> m = Generate \<and> noDrawing \<and> noSentence)
    in ((fst r = Inl drawingRequired \<or> fst r = Inl inputRequired) \<and> snd r = [] \<longleftrightarrow> missing)
       \<and> (m = Submit \<and> noDrawing \<longrightarrow> r = (Inl drawingRequired, []))
       \<and> (m = Generate \<and> noDrawing \<and> noSentence \<longrightarrow> r = (Inl inputRequired, []))
       \<and> (\<not> missing \<longrightarrow> textRequest word sentence \<in> set (snd r)
             \<and> (m = Generate \<longrightarrow> (\<exists>req \<in> set (snd r). isImageRequest req))))"
proof (cases m)
  case Submit
  show ?thesis
  proof (cases "provided drawing")
    case None
    then have "generateQuiz e word sentence drawing m = (Inl drawingRequired, [])"
      using Submit by (simp add: generateQuiz_thrown prepareImage_Submit)
    then show ?thesis using None Submit by (simp add: provided_None_iff Let_def)
  next
    case (Some d)
    then have "prepareImage e word sentence drawing m = Inr (Inr (Original d), [])"
      using Submit by (simp add: prepareImage_Submit)
    then have "snd (generateQuiz e word sentence drawing m) = [textRequest word sentence]"
      using generateQuiz_trace by fastforce
    then show ?thesis using Some Submit by (auto simp: provided_Some_iff Let_def)
  qed
next
  case Generate
  show ?thesis
  proof (cases "provided drawing")
    case None
    show ?thesis
    proof (cases "trim sentence = []")
      case True
      then have "generateQuiz e word sentence drawing m = (Inl inputRequired, [])"
        using None Generate by (simp add: generateQuiz_thrown prepareImage_Generate)
      then show ?thesis using None Generate True
        by (simp add: provided_None_iff trim_empty_iff Let_def)
    next
      case False
      then have "snd (generateQuiz e word sentence drawing m) =
          [illustrationRequest word sentence, textRequest word sentence]"
        using None Generate generateQuiz_trace [of e word sentence drawing m]
        by (simp add: prepareImage_Generate)
      then show ?thesis using None Generate False illustrationRequest_image
        by (auto simp: provided_None_iff trim_empty_iff Let_def)
    qed
  next
    case (Some d)
    then have "snd (generateQuiz e word sentence drawing m) =
          [sketchRequest word sentence d, textRequest word sentence]"
      using Generate generateQuiz_trace [of e word sentence drawing m]
      by (simp add: prepareImage_Generate)
    then show ?thesis using Some Generate sketchRequest_image
      by (auto simp: provided_Some_iff Let_def)
  qed
qed

theorem generateQuiz_validation_witness:
  "generateQuiz sampleEnv (lit ''launch'') [] None Generate = (Inl inputRequired, [])
   \<and> generateQuiz sampleEnv (lit ''improve'') sampleSentence None Submit = (Inl drawingRequired, [])"
  using generateQuiz_validation [of sampleEnv "lit ''launch''" "[]" None Generate]
    generateQuiz_validation [of sampleEnv "lit ''improve''" sampleSentence None Submit]
  by (simp add: Let_def)

subsection \<open>Joining the two branches\<close>

lemma Promise_all_Inr_iff:
  "Promise_all f p q = Inr (a, b) \<longleftrightarrow> p = Inr a \<and> q = Inr b"
  by (auto simp: Promise_all_def split: sum.splits)





subsection \<open>Extracting the image\<close>

lemma scanParts_none: "(\<forall>x \<in> set ps. inlineData x = None) \<Longrightarrow> scanParts ps = []"
  by (induction ps) auto

lemma scanParts_first:
  "(\<forall>x \<in> set pre. inlineData x = None) \<Longrightarrow> inlineData p = Some b \<Longrightarrow>
   scanParts (pre @ p # post) = lit ''data:image/png;base64,'' @ templateStr (data b)"
  by (induction pre) auto

lemma dataUri_truthy: "truthy (lit ''data:image/png;base64,'' @ s)"
  by (simp add: truthy_def lit_def)

lemma extractImage_parts:
  "candidates r = Some (c # cs) \<Longrightarrow> content c = Some ct \<Longrightarrow> parts ct = Some ps \<Longrightarrow>
   extractImage (FromService r) = Inr (scanParts ps)"
  by (simp add: extractImage_def)

lemma extractImage_no_candidates:
  "candidates r = None \<Longrightarrow> extractImage (FromService r) = Inr []"
  by (simp add: extractImage_def)

lemma extractImage_no_parts:
  "candidates r = Some (c # cs) \<Longrightarrow> content c = Some ct \<Longrightarrow> parts ct = None \<Longrightarrow>
   extractImage (FromService r) = Inr []"
  by (simp add: extractImage_def)

lemma extractImage_empty_candidates:
  "candidates r = Some [] \<Longrightarrow> extractImage (FromService r) = Inl TypeError"
  by (simp add: extractImage_def)

lemma extractImage_no_content:
  "candidates r = Some (c # cs) \<Longrightarrow> content c = None \<Longrightarrow>
   extractImage (FromService r) = Inl TypeError"
  by (simp add: extractImage_def)

lemma merge_no_image:
  "extractImage ir = Inr [] \<Longrightarrow> merge e word ir tr = Inl imageFailed"
  by (simp add: merge_def truthy_def)

text \<open>
  The scan of the parts, once both requests are answered, on a response whose first
  candidate has content: \<open>imageUrl\<close> is \<open>data:image/png;base64,\<close> followed by the
  data of the first part that carries inline data; the parts before it, which carry
  none, are skipped, and the parts after it are never looked at. Parts without inline
  data, a missing candidates field and a content without parts all end in the
  image-failure error.
\<close>

lemma generate_first_inline_part_wins:
  assumes "prepareImage e word sentence drawing Generate = Inr (Inr (FromService r), sent)"
    and "generateContent e (textRequest word sentence) = Inr t"
  shows "(\<forall>c cs ct pre p post b.
            candidates r = Some (c # cs) \<and> content c = Some ct \<and> parts ct = Some (pre @ p # post)
            \<and> (\<forall>x \<in> set pre. inlineData x = None) \<and> inlineData p = Some b
           \<longrightarrow> fst (generateQuiz e word sentence drawing Generate) =
                 (case extractText e t of
                    Inl err \<Rightarrow> Inl err
                  | Inr (original, blanked) \<Rightarrow>
                      Inr \<lparr>imageUrl = lit ''data:image/png;base64,'' @ templateStr (data b),
                           originalSentence = original, blankedSentence = blanked,
                           targetWord = word\<rparr>))
       \<and> (\<forall>c cs ct ps.
            candidates r = Some (c # cs) \<and> content c = Some ct \<and> parts ct = Some ps
            \<and> (\<forall>x \<in> set ps. inlineData x = None)
           \<longrightarrow> fst (generateQuiz e word sentence drawing Generate) = Inl imageFailed)
       \<and> (candidates r = None
           \<longrightarrow> fst (generateQuiz e word sentence drawing Generate) = Inl imageFailed)
       \<and> (\<forall>c cs ct.
            candidates r = Some (c # cs) \<and> content c = Some ct \<and> parts ct = None
           \<longrightarrow> fst (generateQuiz e word sentence drawing Generate) = Inl imageFailed)"
proof -
  have joined: "fst (generateQuiz e word sentence drawing Generate) = merge e word (FromService r) t"
    by (simp add: generateQuiz_joined [OF assms(1)] assms(2) Promise_all_def)
  show ?thesis
  proof (intro conjI allI impI)
    fix c cs ct pre p post b
    assume shape: "candidates r = Some (c # cs) \<and> content c = Some ct
        \<and> parts ct = Some (pre @ p # post)
        \<and> (\<forall>x \<in> set pre. inlineData x = None) \<and> inlineData p = Some b"
    then have "extractImage (FromService r) = Inr (scanParts (pre @ p # post))"
      by (simp add: extractImage_parts)
    moreover have "scanParts (pre @ p # post) = lit ''data:image/png;base64,'' @ templateStr (data b)"
      using shape by (simp add: scanParts_first)
    ultimately show "fst (generateQuiz e word sentence drawing Generate) =
        (case extractText e t of
           Inl err \<Rightarrow> Inl err
         | Inr (original, blanked) \<Rightarrow>
             Inr \<lparr>imageUrl = lit ''data:image/png;base64,'' @ templateStr (data b),
                  originalSentence = original, blankedSentence = blanked, targetWord = word\<rparr>)"
      by (simp add: joined merge_def dataUri_truthy)
  next
    fix c cs ct ps
    assume shape: "candidates r = Some (c # cs) \<and> content c = Some ct \<and> parts ct = Some ps
        \<and> (\<forall>x \<in> set ps. inlineData x = None)"
    then have "extractImage (FromService r) = Inr (scanParts ps)"
      by (simp add: extractImage_parts)
    moreover have "scanParts ps = []"
      using shape by (simp add: scanParts_none)
    ultimately show "fst (generateQuiz e word sentence drawing Generate) = Inl imageFailed"
      by (simp add: joined merge_no_image)
  next
    assume "candidates r = None"
    then show "fst (generateQuiz e word sentence drawing Generate) = Inl imageFailed"
      by (simp add: joined merge_no_image extractImage_no_candidates)
  next
    fix c cs ct
    assume "candidates r = Some (c # cs) \<and> content c = Some ct \<and> parts ct = None"
    then show "fst (generateQuiz e word sentence drawing Generate) = Inl imageFailed"
      by (simp add: joined merge_no_image extractImage_no_parts)
  qed
qed

lemma sampleSentence_not_blank: "trim sampleSentence \<noteq> []"
  by (simp add: trim_empty_iff sampleSentence_def lit_def isWhiteSpace_def)

lemma sample_image_promise:
  "prepareImage sampleEnv (lit ''improve'') sampleSentence None Generate =
     Inr (Inr (FromService sampleImageResponse), [illustrationRequest (lit ''improve'') sampleSentence])"
  using sampleSentence_not_blank
  by (simp add: prepareImage_Generate provided_def sampleEnv_def sampleService_def
      illustrationRequest_image)

lemma sample_generate_result:
  "fst (generateQuiz sampleEnv (lit ''improve'') sampleSentence None Generate) =
     Inr \<lparr>imageUrl = lit ''data:image/png;base64,AAAA'',
          originalSentence = Some (JString sampleSentence),
          blankedSentence = Some (JString sampleBlanked), targetWord = lit ''improve''\<rparr>"
proof -
  note first = generate_first_inline_part_wins
    [OF sample_image_promise sample_text_promise, THEN conjunct1, rule_format,
      of "\<lparr>content = Some \<lparr>parts = Some sampleParts\<rparr>\<rparr>" "[]" "\<lparr>parts = Some sampleParts\<rparr>"
         "[\<lparr>partText = Some (lit ''Here is the illustration.''), inlineData = None\<rparr>]"
         "\<lparr>partText = None, inlineData = Some \<lparr>mimeType = Some (lit ''image/png''), data = Some (lit ''AAAA'')\<rparr>\<rparr>"
         "[\<lparr>partText = None, inlineData = Some \<lparr>mimeType = Some (lit ''image/png''), data = Some (lit ''BBBB'')\<rparr>\<rparr>]"
         "\<lparr>mimeType = Some (lit ''image/png''), data = Some (lit ''AAAA'')\<rparr>"]
  show ?thesis
    using first
    by (simp add: sampleImageResponse_def sampleParts_def sample_extractText sampleEnv_def
        templateStr_def lit_def)
qed

lemma refused_image_promise:
  "prepareImage refusedEnv (lit ''launch'') sampleSentence None Generate =
     Inr (Inr (FromService \<lparr>candidates = Some [\<lparr>content = None\<rparr>], responseText = None\<rparr>),
          [illustrationRequest (lit ''launch'') sampleSentence])"
  using sampleSentence_not_blank
  by (simp add: prepareImage_Generate provided_def refusedEnv_def refusedService_def
      illustrationRequest_image)

lemma refused_text_promise:
  "generateContent refusedEnv (textRequest word sentence) = Inr sampleTextResponse"
  by (simp add: refusedEnv_def refusedService_def textRequest_not_image)

text \<open>
  Claim C5 says that in generate mode the first part of the response that carries
  inline data gives \<open>imageUrl\<close>, and that \<open>generateQuiz\<close> throws the image-failure
  error if no part carries inline data. The first half holds
  (\<open>generate_first_inline_part_wins\<close>). The second half fails on a response that
  has no parts because its first candidate has no content, or because its list of
  candidates is empty: the code reads \<open>candidates[0].content.parts\<close> without a check
  and a \<open>TypeError\<close> is thrown instead. Here the service answers the image request
  with one candidate without content.
\<close>

theorem contentless_candidate_type_error:
  "fst (generateQuiz refusedEnv (lit ''launch'') sampleSentence None Generate) = Inl TypeError
   \<and> Inl TypeError \<noteq> (Inl imageFailed :: js_error + QuizResult)"
  by (simp add: generateQuiz_joined [OF refused_image_promise] refused_text_promise
      Promise_all_def merge_def extractImage_def imageFailed_def)

lemma blocked_image_promise:
  "prepareImage blockedEnv (lit ''launch'') sampleSentence None Generate =
     Inr (Inr (FromService \<lparr>candidates = Some [], responseText = None\<rparr>),
          [illustrationRequest (lit ''launch'') sampleSentence])"
  using sampleSentence_not_blank
  by (simp add: prepareImage_Generate provided_def blockedEnv_def blockedService_def
      illustrationRequest_image)

lemma blocked_text_promise:
  "generateContent blockedEnv (textRequest word sentence) = Inr sampleTextResponse"
  by (simp add: blockedEnv_def blockedService_def textRequest_not_image)

text \<open>
  Claim C10 says that the extraction of the image ends in the image-failure error for
  every shape of the response, an empty list of candidates included. The code guards
  against a missing \<open>candidates\<close> field and against missing \<open>parts\<close>
  (\<open>extractImage_no_candidates\<close>, \<open>extractImage_no_parts\<close>), but it reads
  \<open>candidates[0].content\<close> without a check: on an empty list of candidates, or a
  first candidate without content, a \<open>TypeError\<close> is thrown instead
  (\<open>extractImage_empty_candidates\<close>, \<open>extractImage_no_content\<close>). Here
  \<open>generateQuiz\<close> is run on a service that answers the image request with an empty
  list of candidates.
\<close>

theorem empty_candidates_type_error:
  "fst (generateQuiz blockedEnv (lit ''launch'') sampleSentence None Generate) = Inl TypeError
   \<and> Inl TypeError \<noteq> (Inl imageFailed :: js_error + QuizResult)"
  by (simp add: generateQuiz_joined [OF blocked_image_promise] blocked_text_promise
      Promise_all_def merge_def extractImage_def imageFailed_def)

subsection \<open>Extracting the text\<close>

lemma silent_submit:
  "fst (generateQuiz silentEnv (lit ''improve'') sampleSentence (Some sampleDrawing) Submit) = Inr silentResult"
proof -
  have "extractText silentEnv \<lparr>candidates = None, responseText = None\<rparr> = Inr (None, None)"
    by (simp add: extractText_def orElse_def provided_def silentEnv_def sampleParse_def
        sampleQuizText_def getProp_def lit_def)
  then show ?thesis
    by (simp add: generateQuiz_Submit [OF sampleDrawing_nonempty] silentEnv_def silentService_def
        silentResult_def)
qed

text \<open>
  Claim C3 says that both sentences of every returned \<open>QuizResult\<close> are non-empty
  strings. It fails when the text response carries no text: the default \<open>{}\<close> is
  parsed, both fields are \<open>undefined\<close>, and the result is returned all the same.
\<close>

theorem sentences_nonempty_counterexample:
  "fst (generateQuiz silentEnv (lit ''improve'') sampleSentence (Some sampleDrawing) Submit) = Inr silentResult
   \<and> \<not> nonEmptyString (originalSentence silentResult)
   \<and> \<not> nonEmptyString (blankedSentence silentResult)"
  by (simp add: silent_submit silentResult_def nonEmptyString_def)

lemma merge_Inr_fields:
  assumes "merge e word ir tr = Inr q"
  shows "extractText e tr = Inr (originalSentence q, blankedSentence q)"
  using assms by (auto simp: merge_def split: sum.splits if_splits prod.splits)

lemma nonEmptyString_getProp:
  "getProp textData key = Inr v \<Longrightarrow>
   nonEmptyString v \<longleftrightarrow> (\<exists>kvs s. textData = JObject kvs \<and> map_of kvs key = Some (JString s) \<and> s \<noteq> [])"
  by (cases textData) (auto simp: getProp_def nonEmptyString_def split: option.splits json.splits)

text \<open>
  Claim C3, amended. Whenever \<open>generateQuiz\<close> returns a \<open>QuizResult\<close>, the text
  request was answered, the text of the answer (or \<open>{}\<close> when it has none) was parsed,
  and \<open>originalSentence\<close> and \<open>blankedSentence\<close> are what the parsed value holds
  under these two names. Each of them is a non-empty string exactly when the parsed
  value is an object that holds a non-empty string under that name.
\<close>

theorem sentences_are_parsed_fields:
  assumes "fst (generateQuiz e word sentence drawing m) = Inr q"
  shows "\<exists>t textData. generateContent e (textRequest word sentence) = Inr t
      \<and> JSON_parse e (orElse (responseText t) (lit ''{}'')) = Inr textData
      \<and> getProp textData (lit ''originalSentence'') = Inr (originalSentence q)
      \<and> getProp textData (lit ''blankedSentence'') = Inr (blankedSentence q)
      \<and> (nonEmptyString (originalSentence q) \<longleftrightarrow>
           (\<exists>kvs s. textData = JObject kvs
              \<and> map_of kvs (lit ''originalSentence'') = Some (JString s) \<and> s \<noteq> []))
      \<and> (nonEmptyString (blankedSentence q) \<longleftrightarrow>
           (\<exists>kvs s. textData = JObject kvs
              \<and> map_of kvs (lit ''blankedSentence'') = Some (JString s) \<and> s \<noteq> []))"
proof (cases "prepareImage e word sentence drawing m")
  case (Inl err)
  then show ?thesis using assms by (simp add: generateQuiz_thrown)
next
  case (Inr pr)
  then obtain imagePromise sent where
    prep: "prepareImage e word sentence drawing m = Inr (imagePromise, sent)"
    by (cases pr) simp
  from assms obtain ir tr where
    joined: "Promise_all (imageSettlesFirst e) imagePromise (generateContent e (textRequest word sentence))
       = Inr (ir, tr)" and merged: "merge e word ir tr = Inr q"
    by (auto simp: generateQuiz_joined [OF prep] split: sum.splits)
  from joined have answered: "generateContent e (textRequest word sentence) = Inr tr"
    by (simp add: Promise_all_Inr_iff)
  from merged have "extractText e tr = Inr (originalSentence q, blankedSentence q)"
    by (rule merge_Inr_fields)
  then obtain textData where
    parsed: "JSON_parse e (orElse (responseText tr) (lit ''{}'')) = Inr textData"
    and orig: "getProp textData (lit ''originalSentence'') = Inr (originalSentence q)"
    and blank: "getProp textData (lit ''blankedSentence'') = Inr (blankedSentence q)"
    by (auto simp: extractText_def Let_def split: sum.splits)
  show ?thesis
    using answered parsed orig blank nonEmptyString_getProp [OF orig] nonEmptyString_getProp [OF blank]
    by blast
qed

lemma sample_submit:
  "fst (generateQuiz sampleEnv (lit ''improve'') sampleSentence (Some sampleDrawing) Submit) =
     Inr \<lparr>imageUrl = sampleDrawing, originalSentence = Some (JString sampleSentence),
          blankedSentence = Some (JString sampleBlanked), targetWord = lit ''improve''\<rparr>"
proof -
  have "JSON_parse sampleEnv = sampleParse" by (simp add: sampleEnv_def)
  then show ?thesis
    by (simp add: generateQuiz_Submit [OF sampleDrawing_nonempty] sample_text_promise
        sample_extractText)
qed

theorem sentences_are_parsed_fields_witness:
  "\<exists>t textData. generateContent sampleEnv (textRequest (lit ''improve'') sampleSentence) = Inr t
      \<and> JSON_parse sampleEnv (orElse (responseText t) (lit ''{}'')) = Inr textData
      \<and> getProp textData (lit ''originalSentence'') = Inr (Some (JString sampleSentence))
      \<and> getProp textData (lit ''blankedSentence'') = Inr (Some (JString sampleBlanked))"
  using sentences_are_parsed_fields [OF sample_submit] by simp blast

subsection \<open>The drawing surface\<close>

lemma run_Nil: "run enc s [] = s"
  by (simp add: run_def)

lemma run_Cons: "run enc s (ev # evs) = run enc (handle enc s ev) evs"
  by (simp add: run_def)

lemma run_append: "run enc s (xs @ ys) = run enc (run enc s xs) ys"
  by (simp add: run_def)

lemma mount_ready:
  "context2d c \<Longrightarrow>
   \<exists>c'. canvasRef (mount (Some c)) = Some c' \<and> context2d c'"
  by (simp add: mount_def Let_def)

lemma mount_flags:
  "\<not> isDrawing (mount ref) \<and> \<not> hasDrawn (mount ref) \<and> notified (mount ref) = []"
  by (simp add: mount_def)

lemma clearCanvas_ready:
  assumes "canvasRef s = Some c" "context2d c"
  shows "\<exists>c'. canvasRef (clearCanvas s) = Some c' \<and> context2d c'"
    and "hasDrawn (clearCanvas s) = False"
    and "isDrawing (clearCanvas s) = isDrawing s"
    and "notified (clearCanvas s) = notified s @ [None]"
  using assms by (simp_all add: clearCanvas_def)

lemma run_clears:
  assumes "canvasRef s = Some c" "context2d c" "\<not> hasDrawn s"
  shows "\<not> hasDrawn (run enc s (replicate n Clear))
       \<and> notified (run enc s (replicate n Clear)) = notified s @ replicate n None"
  using assms
proof (induction n arbitrary: s c)
  case 0
  then show ?case by (simp add: run_Nil)
next
  case (Suc n)
  from clearCanvas_ready [OF Suc.prems(1,2)]
  obtain c' where "canvasRef (clearCanvas s) = Some c'" "context2d c'"
    and "\<not> hasDrawn (clearCanvas s)" and "notified (clearCanvas s) = notified s @ [None]"
    by auto
  with Suc.IH [of "clearCanvas s" c'] show ?case
    by (simp add: run_Cons replicate_app_Cons_same)
qed

lemma startDrawing_ready:
  assumes "canvasRef s = Some c" "context2d c"
  shows "\<exists>c'. canvasRef (startDrawing e s) = Some c' \<and> context2d c'"
    and "isDrawing (startDrawing e s)"
    and "hasDrawn (startDrawing e s)"
    and "notified (startDrawing e s) = notified s"
  using assms by (simp_all add: startDrawing_def split: prod.splits)

lemma draw_ready:
  assumes "canvasRef s = Some c" "context2d c"
  shows "\<exists>c'. canvasRef (draw e s) = Some c' \<and> context2d c'"
    and "isDrawing (draw e s) = isDrawing s"
    and "hasDrawn (draw e s) = hasDrawn s"
    and "notified (draw e s) = notified s"
  using assms by (simp_all add: draw_def split: prod.splits)

lemma run_moves:
  assumes "canvasRef s = Some c" "context2d c"
  shows "(\<exists>c'. canvasRef (run enc s (map Move ps)) = Some c' \<and> context2d c')
       \<and> isDrawing (run enc s (map Move ps)) = isDrawing s
       \<and> hasDrawn (run enc s (map Move ps)) = hasDrawn s
       \<and> notified (run enc s (map Move ps)) = notified s"
  using assms
proof (induction ps arbitrary: s c)
  case Nil
  then show ?case by (simp add: run_Nil)
next
  case (Cons p ps)
  from draw_ready [OF Cons.prems, of p]
  obtain c' where c': "canvasRef (draw p s) = Some c'" "context2d c'"
    and keep: "isDrawing (draw p s) = isDrawing s" "hasDrawn (draw p s) = hasDrawn s"
      "notified (draw p s) = notified s"
    by auto
  from Cons.IH [OF c'] keep show ?case
    by (simp add: run_Cons)
qed

lemma stopDrawing_idle: "\<not> isDrawing s \<Longrightarrow> stopDrawing enc s = s"
  by (simp add: stopDrawing_def)

lemma stopDrawing_not_drawing: "\<not> isDrawing (stopDrawing enc s)"
  by (simp add: stopDrawing_def exportCanvas_def split: option.splits)

lemma stopDrawing_exports:
  assumes "canvasRef s = Some c" "isDrawing s" "hasDrawn s"
  shows "stopDrawing enc s = s\<lparr>isDrawing := False, notified := notified s @ [Some (enc c)]\<rparr>"
  using assms by (simp add: stopDrawing_def exportCanvas_def)

lemma one_stroke:
  assumes "canvasRef s = Some c" "context2d c"
  shows "\<exists>c'. canvasRef (run enc s (Press p # map Move ps @ [Release])) = Some c'
           \<and> notified (run enc s (Press p # map Move ps @ [Release])) = notified s @ [Some (enc c')]
           \<and> hasDrawn (run enc s (Press p # map Move ps @ [Release]))
           \<and> \<not> isDrawing (run enc s (Press p # map Move ps @ [Release]))
           \<and> context2d c'"
proof -
  let ?s1 = "startDrawing p s"
  let ?s2 = "run enc ?s1 (map Move ps)"
  from startDrawing_ready [OF assms, of p]
  obtain c1 where c1: "canvasRef ?s1 = Some c1" "context2d c1"
    and s1: "isDrawing ?s1" "hasDrawn ?s1" "notified ?s1 = notified s"
    by auto
  from run_moves [OF c1, of enc ps] s1
  obtain c2 where c2: "canvasRef ?s2 = Some c2" "context2d c2"
    and s2: "isDrawing ?s2" "hasDrawn ?s2" "notified ?s2 = notified s"
    by auto
  have "run enc s (Press p # map Move ps @ [Release]) = stopDrawing enc ?s2"
    by (simp add: run_Cons run_append run_Nil)
  also have "\<dots> = ?s2\<lparr>isDrawing := False, notified := notified ?s2 @ [Some (enc c2)]\<rparr>"
    using c2(1) s2(1,2) by (rule stopDrawing_exports)
  finally show ?thesis using c2 s2 by simp
qed

text \<open>
  Claim C8. On a mounted surface whose canvas gives a 2d context:
  clearing before any stroke, any number of times, leaves \<open>hasDrawn\<close> false and
  calls \<open>onImageReady\<close> with \<open>null\<close> only;
  a press, any moves and a release call \<open>onImageReady\<close> exactly once, with the
  encoded canvas;
  a release while not drawing changes nothing, and so does a release after a release;
  clearing after the stroke resets \<open>hasDrawn\<close> and calls \<open>onImageReady(null)\<close>.
\<close>

theorem drawing_surface_callbacks:
  assumes "context2d c"
  shows "(\<not> hasDrawn (run enc (mount (Some c)) (replicate n Clear))
          \<and> notified (run enc (mount (Some c)) (replicate n Clear)) = replicate n None)
       \<and> (\<exists>c'. canvasRef (run enc (mount (Some c)) (Press p # map Move ps @ [Release])) = Some c'
             \<and> notified (run enc (mount (Some c)) (Press p # map Move ps @ [Release])) = [Some (enc c')])
       \<and> (\<not> isDrawing s \<longrightarrow> handle enc s Release = s)
       \<and> handle enc (handle enc s Release) Release = handle enc s Release
       \<and> (\<not> hasDrawn (run enc (mount (Some c)) (Press p # map Move ps @ [Release, Clear]))
          \<and> (\<exists>d. notified (run enc (mount (Some c)) (Press p # map Move ps @ [Release, Clear]))
                 = [Some d, None]))"
proof -
  let ?s0 = "mount (Some c)"
  from mount_ready [OF assms] obtain c0 where c0: "canvasRef ?s0 = Some c0" "context2d c0"
    by auto
  have flags: "\<not> isDrawing ?s0" "\<not> hasDrawn ?s0" "notified ?s0 = []"
    using mount_flags [of "Some c"] by simp_all
  have clears: "\<not> hasDrawn (run enc ?s0 (replicate n Clear))
      \<and> notified (run enc ?s0 (replicate n Clear)) = replicate n None"
    using run_clears [OF c0 flags(2), of enc n] flags(3) by simp
  let ?s1 = "run enc ?s0 (Press p # map Move ps @ [Release])"
  from one_stroke [OF c0, of enc p ps] flags(3)
  obtain c1 where c1: "canvasRef ?s1 = Some c1" "context2d c1"
    and s1: "notified ?s1 = [Some (enc c1)]"
    by auto
  have idle: "\<not> isDrawing s \<longrightarrow> handle enc s Release = s"
    by (simp add: stopDrawing_idle)
  have twice: "handle enc (handle enc s Release) Release = handle enc s Release"
    by (simp add: stopDrawing_idle stopDrawing_not_drawing)
  have "run enc ?s0 (Press p # map Move ps @ [Release, Clear]) = clearCanvas ?s1"
    using run_append [of enc ?s0 "Press p # map Move ps @ [Release]" "[Clear]"]
    by (simp add: run_Cons run_Nil)
  then have cleared: "\<not> hasDrawn (run enc ?s0 (Press p # map Move ps @ [Release, Clear]))"
    "notified (run enc ?s0 (Press p # map Move ps @ [Release, Clear])) = [Some (enc c1), None]"
    using clearCanvas_ready [OF c1] s1 by simp_all
  show ?thesis
    using clears c1(1) s1 idle twice cleared by blast
qed

theorem drawing_surface_callbacks_witness:
  "notified (run sampleEncoder (mount (Some sampleCanvas)) [Clear]) = [None]
   \<and> length (notified (run sampleEncoder (mount (Some sampleCanvas)) sampleStroke)) = 1"
proof -
  have ctx: "context2d sampleCanvas" by (simp add: sampleCanvas_def)
  note inst = drawing_surface_callbacks [OF ctx, of sampleEncoder "Suc 0" "Mouse 15 25"
      "[Mouse 16 27, Mouse 18 30]" "mount (Some sampleCanvas)"]
  have eq: "sampleStroke = Press (Mouse 15 25) # map Move [Mouse 16 27, Mouse 18 30] @ [Release]"
    by (simp add: sampleStroke_def)
  from inst show ?thesis unfolding eq by auto
qed

subsection \<open>Rounding to the nearest double\<close>

lemma roundHalfEven_error: "\<bar>of_int (roundHalfEven x) - x\<bar> \<le> 1 / 2"
proof -
  have "of_int \<lfloor>x\<rfloor> \<le> x" and "x < of_int \<lfloor>x\<rfloor> + 1"
    using floor_correct [of x] by simp_all
  then show ?thesis
    unfolding roundHalfEven_def Let_def by (simp add: abs_le_iff)
qed

lemma roundHalfEven_of_int: "roundHalfEven (of_int k) = k"
  by (simp add: roundHalfEven_def)

lemma roundPos_error: "0 \<le> x \<Longrightarrow> \<bar>roundPos x - x\<bar> \<le> x / 2 ^ 53"
proof (induction x rule: roundPos.induct)
  case (1 x)
  show ?case
  proof (cases "x \<le> 0")
    case True
    then show ?thesis using "1.prems" by (simp add: roundPos.simps)
  next
    case pos: False
    show ?thesis
    proof (cases "2 ^ 53 \<le> x")
      case True
      have "\<bar>roundPos (x / 2) - x / 2\<bar> \<le> x / 2 / 2 ^ 53"
        using "1.IH"(1) [OF pos True] pos by simp
      moreover have "roundPos x = 2 * roundPos (x / 2)"
        using pos True by (subst roundPos.simps) simp
      then have "\<bar>roundPos x - x\<bar> = 2 * \<bar>roundPos (x / 2) - x / 2\<bar>"
        by (simp add: abs_if)
      ultimately show ?thesis by simp
    next
      case nbig: False
      show ?thesis
      proof (cases "x < 2 ^ 52")
        case True
        have "\<bar>roundPos (2 * x) - 2 * x\<bar> \<le> 2 * x / 2 ^ 53"
          using "1.IH"(2) [OF pos nbig True] pos by simp
        moreover have "roundPos x = roundPos (2 * x) / 2"
          using pos nbig True by (subst roundPos.simps) simp
        then have "\<bar>roundPos x - x\<bar> = \<bar>roundPos (2 * x) - 2 * x\<bar> / 2"
          by (simp add: abs_if)
        ultimately show ?thesis by simp
      next
        case False
        then have "roundPos x = of_int (roundHalfEven x)"
          using pos nbig by (subst roundPos.simps) simp
        moreover have "1 / 2 \<le> x / 2 ^ 53" using False by simp
        ultimately show ?thesis using roundHalfEven_error [of x] by linarith
      qed
    qed
  qed
qed

lemma roundPos_of_int:
  "0 \<le> x \<Longrightarrow> x \<le> 2 ^ 53 \<Longrightarrow> x \<in> \<int> \<Longrightarrow> roundPos x = x"
proof (induction x rule: roundPos.induct)
  case (1 x)
  show ?case
  proof (cases "x \<le> 0")
    case True
    then show ?thesis using "1.prems" by (simp add: roundPos.simps)
  next
    case pos: False
    show ?thesis
    proof (cases "2 ^ 53 \<le> x")
      case True
      then have x: "x = 2 ^ 53" using "1.prems" by simp
      have "x / 2 = 2 ^ 52" unfolding x by simp
      then have "x / 2 \<in> \<int>" by simp
      then have "roundPos (x / 2) = x / 2"
        using "1.IH"(1) [OF pos True] pos "1.prems" by simp
      moreover have "roundPos x = 2 * roundPos (x / 2)"
        using pos True by (subst roundPos.simps) simp
      ultimately show ?thesis by simp
    next
      case nbig: False
      show ?thesis
      proof (cases "x < 2 ^ 52")
        case True
        have "2 * x \<in> \<int>" using "1.prems"(3) by simp
        then have "roundPos (2 * x) = 2 * x"
          using "1.IH"(2) [OF pos nbig True] pos True by simp
        moreover have "roundPos x = roundPos (2 * x) / 2"
          using pos nbig True by (subst roundPos.simps) simp
        ultimately show ?thesis by simp
      next
        case False
        then have "roundPos x = of_int (roundHalfEven x)"
          using pos nbig by (subst roundPos.simps) simp
        moreover obtain k where "x = of_int k" using "1.prems"(3) by (auto elim: Ints_cases)
        ultimately show ?thesis by (simp add: roundHalfEven_of_int)
      qed
    qed
  qed
qed

lemma roundPos_double: "0 < x \<Longrightarrow> roundPos (2 * x) = 2 * roundPos x"
proof (cases "x < 2 ^ 52")
  case True
  assume "0 < x"
  then have "roundPos x = roundPos (2 * x) / 2"
    using True by (subst roundPos.simps) simp
  then show ?thesis by simp
next
  case False
  assume "0 < x"
  then have "roundPos (2 * x) = 2 * roundPos (2 * x / 2)"
    using False by (subst roundPos.simps) simp
  then show ?thesis by simp
qed

lemma roundPos_up: "0 < x \<Longrightarrow> roundPos (x * 2 ^ k) = roundPos x * 2 ^ k"
proof (induction k)
  case 0
  then show ?case by simp
next
  case (Suc k)
  have "roundPos (x * 2 ^ Suc k) = roundPos (2 * (x * 2 ^ k))" by (simp add: mult.commute mult.left_commute)
  also have "\<dots> = 2 * roundPos (x * 2 ^ k)" using Suc.prems by (intro roundPos_double) simp
  finally show ?case using Suc by simp
qed

lemma roundPos_unit:
  "2 ^ 52 \<le> y \<Longrightarrow> y < 2 ^ 53 \<Longrightarrow> roundPos y = of_int (roundHalfEven y)"
  by (subst roundPos.simps) (simp add: not_le[symmetric])

text \<open>The double nearest to a number below \<open>2^52\<close>, found by scaling up \<open>k\<close> times.\<close>

lemma fl_scaled:
  assumes "2 ^ 52 \<le> x * 2 ^ k" "x * 2 ^ k < 2 ^ 53" "roundHalfEven (x * 2 ^ k) = n"
  shows "fl x = of_int n / 2 ^ k"
proof -
  have pos: "0 < x"
  proof (rule ccontr)
    assume "\<not> 0 < x"
    then have "x * 2 ^ k \<le> 0" by (simp add: mult_le_0_iff)
    moreover have "(0::rat) < 2 ^ 52" by simp
    ultimately show False using assms(1) by linarith
  qed
  have "roundPos x * 2 ^ k = of_int (roundHalfEven (x * 2 ^ k))"
    using roundPos_up [OF pos, of k] roundPos_unit [OF assms(1,2)] by simp
  then have "roundPos x = of_int (roundHalfEven (x * 2 ^ k)) / 2 ^ k"
    by (simp add: field_simps)
  then show ?thesis using pos assms(3) by (simp add: fl_def)
qed

lemma fl_error: "0 \<le> x \<Longrightarrow> \<bar>fl x - x\<bar> \<le> x / 2 ^ 53"
  using roundPos_error [of x] by (simp add: fl_def)

lemma fl_bounds:
  assumes "0 \<le> x"
  shows "x - x / 9007199254740992 \<le> fl x" and "fl x \<le> x + x / 9007199254740992"
proof -
  have "\<bar>fl x - x\<bar> \<le> x / 9007199254740992"
    using fl_error [OF assms] by simp
  then show "x - x / 9007199254740992 \<le> fl x" and "fl x \<le> x + x / 9007199254740992"
    by linarith+
qed

lemma fl_of_nat: "n \<le> 2 ^ 53 \<Longrightarrow> fl (of_nat n) = of_nat n"
proof -
  assume "n \<le> 2 ^ 53"
  then have "(of_nat n :: rat) \<le> of_nat (2 ^ 53)" by (simp only: of_nat_le_iff)
  then have "(of_nat n :: rat) \<le> 2 ^ 53" by simp
  then have "roundPos (of_nat n) = of_nat n"
    by (intro roundPos_of_int) simp_all
  then show ?thesis by (simp add: fl_def)
qed

lemma fl_numeral: "numeral k \<le> (2 ^ 53 :: nat) \<Longrightarrow> fl (numeral k) = numeral k"
  using fl_of_nat [of "numeral k"] by simp

lemma fl_one: "fl 1 = 1"
  using fl_of_nat [of 1] by simp

lemma textMaxWidth_eq: "textMaxWidth = 1080"
  by (simp add: textMaxWidth_def cardWidth_def padding_def fl_numeral)

subsection \<open>Wrapping the sentence\<close>

lemma wrapLoop_length: "length (wrapLoop m ws n line lines) \<ge> Suc (length lines)"
proof (induction ws arbitrary: n line lines)
  case Nil
  then show ?case by simp
next
  case (Cons w ws)
  show ?case
    using Cons.IH [where n = "Suc n" and line = "w @ lit '' ''" and lines = "lines @ [line]"]
      Cons.IH [where n = "Suc n" and line = "line @ w @ lit '' ''" and lines = lines]
    by (simp add: Let_def)
qed

lemma wrapLoop_concat:
  "concat (wrapLoop m ws n line lines) = concat lines @ line @ concat (map (\<lambda>w. w @ lit '' '') ws)"
  by (induction ws arbitrary: n line lines) (simp_all add: Let_def)

lemma wrapText_nonempty: "wrapText m sentence \<noteq> []"
  using wrapLoop_length [where lines = "[]" and m = m and ws = "split sentence" and n = 0 and line = "[]"]
  by (auto simp: wrapText_def)

lemma wrapText_concat:
  "concat (wrapText m sentence) = concat (map (\<lambda>w. w @ lit '' '') (split sentence))"
  by (simp add: wrapText_def wrapLoop_concat)

lemma wrapLoop_greedy:
  "0 < n \<Longrightarrow> wrapLoop m ws n line lines = lines @ greedyLines m ws line"
  by (induction ws arbitrary: n line lines) (simp_all add: Let_def)

lemma wrapText_greedy: "wrapText m sentence = greedyWrap m (split sentence)"
proof (cases "split sentence")
  case Nil
  then show ?thesis by (simp add: wrapText_def greedyWrap_def)
next
  case (Cons w ws)
  have "wrapLoop m (w # ws) 0 [] [] = wrapLoop m ws (Suc 0) (w @ lit '' '') []"
    by (simp add: Let_def)
  then show ?thesis using Cons
    by (simp add: wrapText_def greedyWrap_def wrapLoop_greedy)
qed

subsection \<open>The composited card\<close>

lemma composeCard_result:
  assumes "loadImage b (imageUrl result) = Loaded imgW imgH" "newContext2d b"
    and "blankedSentence result = Some (JString sentence)"
  shows "\<exists>c. composeCard b result = Inr c
      \<and> canvasHeight c =
          toCanvasSize 150 (totalHeight imgW imgH (length (wrapText (measureText b) sentence)))"
  using assms by (simp add: composeCard_def Let_def)

lemma textSectionHeight_exact:
  assumes "n \<le> 2 ^ 31"
  shows "textSectionHeight n = of_nat n * 70 + 120"
proof -
  have "n * 70 \<le> 2 ^ 53" and "n * 70 + 120 \<le> 2 ^ 53" using assms by simp_all
  then have "fl (of_nat (n * 70)) = of_nat (n * 70)"
    and "fl (of_nat (n * 70 + 120)) = of_nat (n * 70 + 120)"
    by (simp_all only: fl_of_nat)
  then show ?thesis
    by (simp add: textSectionHeight_def lineHeight_def padding_def fl_numeral)
qed

text \<open>
  The total height in doubles against the exact sum, for a card below \<open>2^31\<close>.
\<close>

lemma totalHeight_error:
  fixes imgW imgH :: "32 word" and n :: nat
  defines "x \<equiv> (of_nat (unat imgH) / of_nat (unat imgW) :: rat)"
  defines "E \<equiv> 1200 * x + of_nat n * 70 + 2 * 60"
  assumes w: "0 < imgW" and h: "0 < imgH" and fits: "E < 2 ^ 31"
  shows "\<exists>T. totalHeight imgW imgH n = Num T \<and> \<bar>T - E\<bar> \<le> 1 / 2 ^ 20"
proof -
  have wpos: "0 < unat imgW" and hpos: "0 < unat imgH"
    using w h by (simp_all add: word_less_nat_alt)
  then have "0 < (of_nat (unat imgH) :: rat)" and "0 < (of_nat (unat imgW) :: rat)"
    by (simp_all only: of_nat_0_less_iff)
  then have x0: "0 < x" unfolding x_def by (rule divide_pos_pos)
  have n0: "(0::rat) \<le> of_nat n" by simp
  have nb: "(of_nat n :: rat) * 70 < 2 ^ 31" using fits x0 by (simp add: E_def)
  have "(of_nat (n * 70) :: rat) < of_nat (2 ^ 31)" using nb by simp
  then have "n * 70 < 2 ^ 31" by (simp only: of_nat_less_iff)
  then have nle: "n \<le> 2 ^ 31" by simp
  define S :: rat where "S = of_nat n * 70 + 120"
  have S: "textSectionHeight n = S" using textSectionHeight_exact [OF nle] by (simp add: S_def)
  define r where "r = fl x"
  define I where "I = fl (1200 * r)"
  define T where "T = fl (I + S)"
  have x0': "0 \<le> x" using x0 by simp
  have e1: "x - x / 9007199254740992 \<le> r" "r \<le> x + x / 9007199254740992"
    unfolding r_def using fl_bounds [OF x0'] by simp_all
  have xb: "1200 * x < 2147483648" using fits n0 by (simp add: E_def)
  have r0: "0 \<le> 1200 * r" using e1 x0 by linarith
  have e2: "1200 * r - 1200 * r / 9007199254740992 \<le> I" "I \<le> 1200 * r + 1200 * r / 9007199254740992"
    unfolding I_def using fl_bounds [OF r0] by simp_all
  have S0: "0 \<le> S" by (simp add: S_def)
  have I0: "0 \<le> I + S" using e2 r0 S0 by linarith
  have e3: "I + S - (I / 9007199254740992 + S / 9007199254740992) \<le> T"
    "T \<le> I + S + (I / 9007199254740992 + S / 9007199254740992)"
    unfolding T_def using fl_bounds [OF I0] by (simp_all add: add_divide_distrib)
  have E: "E = 1200 * x + S" by (simp add: E_def S_def)
  have fits': "1200 * x + S < 2147483648" using fits unfolding E by simp
  have "T - (1200 * x + S) \<le> 1 / 1048576"
    using e1 e2 e3 x0 S0 fits' by linarith
  moreover have "(1200 * x + S) - T \<le> 1 / 1048576"
    using e1 e2 e3 x0 S0 fits' by linarith
  ultimately have "\<bar>T - E\<bar> \<le> 1 / 1048576"
    unfolding E by linarith
  then have "\<bar>T - E\<bar> \<le> 1 / 2 ^ 20" by simp
  moreover have "totalHeight imgW imgH n = Num T"
    using w h wpos
    by (simp add: totalHeight_def scaledImageHeight_def aspectRatio_def timesNum_def plusNum_def
        cardWidth_def S T_def I_def r_def x_def)
  ultimately show ?thesis by blast
qed


lemma totalHeight_square:
  fixes imgW :: "32 word"
  assumes "0 < imgW" "n \<le> 2 ^ 30"
  shows "totalHeight imgW imgW n = Num (1200 + of_nat n * 70 + 2 * 60)"
proof -
  have "0 < unat imgW" using assms(1) by (simp add: word_less_nat_alt)
  then have "0 < (of_nat (unat imgW) :: rat)" by (simp only: of_nat_0_less_iff)
  then have "of_nat (unat imgW) / of_nat (unat imgW) = (1::rat)" by (simp del: of_nat_unat)
  moreover have "imgW \<noteq> 0" using assms(1) by auto
  ultimately have ratio: "aspectRatio imgW imgW = Num 1"
    using assms(1) by (simp add: aspectRatio_def fl_one del: of_nat_unat)
  have "n \<le> 2 ^ 31" using assms(2) by simp
  then have S: "textSectionHeight n = of_nat n * 70 + 120" by (rule textSectionHeight_exact)
  have "1200 + (n * 70 + 120) \<le> 2 ^ 53" using assms(2) by simp
  then have "fl (of_nat (1200 + (n * 70 + 120))) = of_nat (1200 + (n * 70 + 120))"
    by (rule fl_of_nat)
  then have "fl (1200 + (of_nat n * 70 + 120)) = 1200 + (of_nat n * 70 + 120)"
    by simp
  then show ?thesis
    by (simp add: totalHeight_def scaledImageHeight_def ratio timesNum_def plusNum_def
        cardWidth_def S fl_numeral)
qed

lemma toCanvasSize_floor:
  assumes "0 \<le> T" "T < 2 ^ 31"
  shows "int (toCanvasSize d (Num T)) = \<lfloor>T\<rfloor>"
proof -
  have lo: "0 \<le> \<lfloor>T\<rfloor>" using assms(1) by simp
  have "\<lfloor>T\<rfloor> < 2 ^ 31" using assms(2) by (simp add: floor_less_iff)
  then have hi: "nat \<lfloor>T\<rfloor> < 2 ^ 31" using lo by (simp add: nat_less_iff)
  then have "nat \<lfloor>T\<rfloor> mod 2 ^ 32 = nat \<lfloor>T\<rfloor>" by simp
  then have "toCanvasSize d (Num T) = nat \<lfloor>T\<rfloor>"
    using hi by (simp add: toCanvasSize_def Let_def)
  then show ?thesis using lo by simp
qed

lemma textSectionHeight_one: "textSectionHeight (Suc 0) = 190"
  using textSectionHeight_exact [of 1] by simp

lemma totalHeight_unfold:
  "0 < imgH \<Longrightarrow> imgW \<noteq> 0 \<Longrightarrow>
   totalHeight imgW imgH n =
     Num (fl (fl (1200 * fl (of_nat (unat imgH) / of_nat (unat imgW))) + textSectionHeight n))"
  by (simp add: totalHeight_def scaledImageHeight_def aspectRatio_def timesNum_def plusNum_def
      cardWidth_def)

lemma totalHeight_zero_width:
  "0 < imgH \<Longrightarrow> toCanvasSize d (totalHeight 0 imgH n) = 0"
  by (simp add: totalHeight_def scaledImageHeight_def aspectRatio_def timesNum_def plusNum_def
      toCanvasSize_def)

lemma shortCard_lines:
  "length (wrapText (measureText sampleBrowser) (lit ''I like ______.'')) = 1"
  by (simp add: wrapText_def split_def sampleBrowser_def lit_def textMaxWidth_eq)

lemma portrait_total: "totalHeight 15 22 (Suc 0) = Num (8576190696652799 / 4398046511104)"
proof -
  have r0: "fl (22 / 15) = of_int 6605279453476727 / 2 ^ 52"
    by (rule fl_scaled) code_simp+
  have i0: "fl (1200 * (6605279453476727 / 4503599627370496)) = of_int 7740561859543039 / 2 ^ 42"
    by (rule fl_scaled) code_simp+
  have t0: "fl (7740561859543039 / 4398046511104 + 190) = of_int 8576190696652799 / 2 ^ 42"
    by (rule fl_scaled) code_simp+
  have r: "fl (22 / 15) = 6605279453476727 / 4503599627370496" using r0 by simp
  have i: "fl (1200 * (6605279453476727 / 4503599627370496)) = 7740561859543039 / 4398046511104"
    using i0 by simp
  have t: "fl (7740561859543039 / 4398046511104 + 190) = 8576190696652799 / 4398046511104"
    using t0 by simp
  have "totalHeight 15 22 (Suc 0) = Num (fl (fl (1200 * fl (22 / 15)) + 190))"
    by (simp add: totalHeight_unfold textSectionHeight_one)
  then show ?thesis by (simp only: r i t)
qed

lemma landscape_total: "totalHeight 640 300 (Suc 0) = Num (1505 / 2)"
proof -
  have r0: "fl (15 / 32) = of_int 8444249301319680 / 2 ^ 54"
    by (rule fl_scaled) code_simp+
  have i0: "fl (1200 * (15 / 32)) = of_int 4947802324992000 / 2 ^ 43"
    by (rule fl_scaled) code_simp+
  have t0: "fl (1125 / 2 + 190) = of_int 6619059999211520 / 2 ^ 43"
    by (rule fl_scaled) code_simp+
  have r: "fl (15 / 32) = 15 / 32" using r0 by simp
  have i: "fl (1200 * (15 / 32)) = 1125 / 2" using i0 by simp
  have t: "fl (1125 / 2 + 190) = 1505 / 2" using t0 by simp
  have "totalHeight 640 300 (Suc 0) = Num (fl (fl (1200 * fl (15 / 32)) + 190))"
    by (simp add: totalHeight_unfold textSectionHeight_one)
  then show ?thesis by (simp only: r i t)
qed


lemma toCanvasSize_value:
  assumes "\<lfloor>T\<rfloor> = k" "0 \<le> T" "T < 2 ^ 31"
  shows "int (toCanvasSize d (Num T)) = k"
  using toCanvasSize_floor [OF assms(2,3), of d] assms(1) by simp

lemma portrait_card:
  "map_sum id canvasHeight (composeCard portraitBrowser shortCard) = Inr 1949"
proof -
  have "loadImage portraitBrowser (imageUrl shortCard) = Loaded 15 22"
    and "newContext2d portraitBrowser"
    and "blankedSentence shortCard = Some (JString (lit ''I like ______.''))"
    by (simp_all add: portraitBrowser_def sampleBrowser_def shortCard_def)
  from composeCard_result [OF this] obtain c where
    c: "composeCard portraitBrowser shortCard = Inr c"
    and "canvasHeight c = toCanvasSize 150 (totalHeight 15 22
      (length (wrapText (measureText portraitBrowser) (lit ''I like ______.''))))"
    by blast
  moreover have "measureText portraitBrowser = measureText sampleBrowser"
    by (simp add: portraitBrowser_def)
  ultimately have "canvasHeight c = toCanvasSize 150 (Num (8576190696652799 / 4398046511104))"
    by (simp add: shortCard_lines portrait_total)
  also have "\<dots> = 1949"
  proof -
    have "\<lfloor>8576190696652799 / 4398046511104 :: rat\<rfloor> = 1949" by code_simp
    then have "int (toCanvasSize 150 (Num (8576190696652799 / 4398046511104))) = 1949"
      by (rule toCanvasSize_value) simp_all
    then show ?thesis by simp
  qed
  finally show ?thesis by (simp add: c)
qed

lemma landscape_card:
  "map_sum id canvasHeight (composeCard landscapeBrowser shortCard) = Inr 752"
proof -
  have "loadImage landscapeBrowser (imageUrl shortCard) = Loaded 640 300"
    and "newContext2d landscapeBrowser"
    and "blankedSentence shortCard = Some (JString (lit ''I like ______.''))"
    by (simp_all add: landscapeBrowser_def sampleBrowser_def shortCard_def)
  from composeCard_result [OF this] obtain c where
    c: "composeCard landscapeBrowser shortCard = Inr c"
    and "canvasHeight c = toCanvasSize 150 (totalHeight 640 300
      (length (wrapText (measureText landscapeBrowser) (lit ''I like ______.''))))"
    by blast
  moreover have "measureText landscapeBrowser = measureText sampleBrowser"
    by (simp add: landscapeBrowser_def)
  ultimately have "canvasHeight c = toCanvasSize 150 (Num (1505 / 2))"
    by (simp add: shortCard_lines landscape_total)
  also have "\<dots> = 752"
  proof -
    have "\<lfloor>1505 / 2 :: rat\<rfloor> = 752" by code_simp
    then have "int (toCanvasSize 150 (Num (1505 / 2))) = 752"
      by (rule toCanvasSize_value) simp_all
    then show ?thesis by simp
  qed
  finally show ?thesis by (simp add: c)
qed

text \<open>
  Claim C9 says that the height of the card equals the scaled image height (the card
  width times the aspect ratio of the source) plus the number of lines times the line
  height plus two times the padding, for every source image. The code computes the
  sum in doubles and assigns it to the integer attribute \<open>canvas.height\<close>. For an
  image of 15 by 22 pixels and a one-line sentence the sum is
  \<open>1200 * (22 / 15) + 70 + 120 = 1950\<close>, the double that the code computes lies just
  below it, and the card is 1949 pixels high. For an image of 640 by 300 the sum is
  752.5 and the card is 752 pixels high.
\<close>

theorem card_height_counterexample:
  "map_sum id canvasHeight (composeCard portraitBrowser shortCard) = Inr 1949
   \<and> 1200 * (22 / 15) + 1 * 70 + 2 * 60 = (1950 :: rat)
   \<and> map_sum id canvasHeight (composeCard landscapeBrowser shortCard) = Inr 752
   \<and> 1200 * (300 / 640) + 1 * 70 + 2 * 60 = (1505 / 2 :: rat)
   \<and> length (wrapText (measureText portraitBrowser) (lit ''I like ______.'')) = 1
   \<and> length (wrapText (measureText landscapeBrowser) (lit ''I like ______.'')) = 1"
  using portrait_card landscape_card shortCard_lines
  by (simp add: portraitBrowser_def landscapeBrowser_def)

text \<open>
  Claim C9, amended. For every decoded source image of positive width and height and
  every blanked sentence whose card stays below \<open>2^31 - 1\<close> pixels, the height of
  the composited card is the integer part of the total height \<open>T\<close> that the code
  computes in doubles, and \<open>T\<close> differs by at most \<open>2^-20\<close> from the scaled image
  height (\<open>1200\<close> times height over width) plus the number of wrapped lines times
  70 plus two times 60. So the card's height is that sum within rounding: not above
  it, and less than one pixel below it, both up to \<open>2^-20\<close>. For a square image it
  is exactly \<open>1200 + 70 * lines + 2 * 60\<close>, which is 1530 for a sentence that wraps
  to three lines. The card is what the download link then points to.
\<close>

theorem card_height_within_rounding:
  fixes imgW imgH :: "32 word"
  assumes "loadImage b (imageUrl result) = Loaded imgW imgH" and "newContext2d b"
    and "blankedSentence result = Some (JString sentence)"
    and "0 < imgW" and "0 < imgH"
    and "1200 * (of_nat (unat imgH) / of_nat (unat imgW)) + of_nat (length (wrapText (measureText b) sentence)) * 70
           + 2 * 60 < (2 ^ 31 - 1 :: rat)"
  shows "\<exists>c T. composeCard b result = Inr c
      \<and> downloadImage b (Some result) =
          Some \<lparr>download = lit ''visual-vocab-'' @ replaceWhiteSpaceRuns (targetWord result) @ lit ''.png'',
                href = cardToDataURL b c\<rparr>
      \<and> totalHeight imgW imgH (length (wrapText (measureText b) sentence)) = Num T
      \<and> int (canvasHeight c) = \<lfloor>T\<rfloor>
      \<and> \<bar>T - (1200 * (of_nat (unat imgH) / of_nat (unat imgW))
                + of_nat (length (wrapText (measureText b) sentence)) * 70 + 2 * 60)\<bar> \<le> 1 / 2 ^ 20
      \<and> of_nat (canvasHeight c) \<le>
            1200 * (of_nat (unat imgH) / of_nat (unat imgW))
              + of_nat (length (wrapText (measureText b) sentence)) * 70 + 2 * 60 + (1 / 2 ^ 20 :: rat)
      \<and> 1200 * (of_nat (unat imgH) / of_nat (unat imgW))
              + of_nat (length (wrapText (measureText b) sentence)) * 70 + 2 * 60 - 1 - 1 / 2 ^ 20
            < (of_nat (canvasHeight c) :: rat)
      \<and> (imgH = imgW \<longrightarrow>
            canvasHeight c = 1200 + length (wrapText (measureText b) sentence) * 70 + 2 * 60)
      \<and> (imgH = imgW \<and> length (wrapText (measureText b) sentence) = 3 \<longrightarrow> canvasHeight c = 1530)"
proof -
  define n where "n = length (wrapText (measureText b) sentence)"
  define E :: rat where "E = 1200 * (of_nat (unat imgH) / of_nat (unat imgW)) + of_nat n * 70 + 2 * 60"
  have fits: "E < 2 ^ 31 - 1" using assms(6) by (simp add: E_def n_def)
  then have fits': "E < 2 ^ 31" by simp
  from composeCard_result [OF assms(1-3)] obtain c where c: "composeCard b result = Inr c"
    and ch: "canvasHeight c = toCanvasSize 150 (totalHeight imgW imgH n)"
    by (auto simp: n_def)
  have dl: "downloadImage b (Some result) =
      Some \<lparr>download = lit ''visual-vocab-'' @ replaceWhiteSpaceRuns (targetWord result) @ lit ''.png'',
            href = cardToDataURL b c\<rparr>"
    by (simp add: downloadImage_def c)
  from totalHeight_error [OF assms(4,5), of n] fits' obtain T where
    T: "totalHeight imgW imgH n = Num T" and err: "\<bar>T - E\<bar> \<le> 1 / 2 ^ 20"
    by (auto simp: E_def)
  have "0 < unat imgW" and "0 < unat imgH"
    using assms(4,5) by (simp_all add: word_less_nat_alt)
  then have "0 < (of_nat (unat imgH) :: rat)" and "0 < (of_nat (unat imgW) :: rat)"
    by (simp_all only: of_nat_0_less_iff)
  then have xpos: "0 < (of_nat (unat imgH) / of_nat (unat imgW) :: rat)"
    and wq: "0 < (of_nat (unat imgW) :: rat)" by (simp_all only: divide_pos_pos)
  have n0: "(0::rat) \<le> of_nat n" by simp
  have E120: "120 < E" unfolding E_def using xpos n0 by linarith
  have p20: "(2::rat) ^ 20 = 1048576" by simp
  have err': "T - E \<le> 1 / 1048576" "E - T \<le> 1 / 1048576" using err unfolding p20 by linarith+
  have T0: "0 \<le> T" using err' E120 by linarith
  have T31: "T < 2 ^ 31" using err' fits by simp
  have fl: "int (canvasHeight c) = \<lfloor>T\<rfloor>"
    unfolding ch T using T0 T31 by (rule toCanvasSize_floor)
  have "(of_nat (canvasHeight c) :: rat) = of_int \<lfloor>T\<rfloor>"
    using fl by (metis of_int_of_nat_eq)
  then have up: "(of_nat (canvasHeight c) :: rat) \<le> T" and low: "T - 1 < (of_nat (canvasHeight c) :: rat)"
    using floor_correct [of T] by simp_all
  have upper: "(of_nat (canvasHeight c) :: rat) \<le> E + 1 / 2 ^ 20"
    using up err' unfolding p20 by linarith
  have lower: "E - 1 - 1 / 2 ^ 20 < (of_nat (canvasHeight c) :: rat)"
    using low err' unfolding p20 by linarith
  have square: "imgH = imgW \<longrightarrow> canvasHeight c = 1200 + n * 70 + 2 * 60"
  proof
    assume eq: "imgH = imgW"
    have "of_nat (unat imgW) / of_nat (unat imgW) = (1::rat)"
      using wq by (simp del: of_nat_unat)
    then have "E = 1200 + of_nat n * 70 + 2 * 60" unfolding E_def eq by (simp only:)
    then have "(of_nat n :: rat) * 70 < 2147483648" using fits by simp
    then have "(of_nat (n * 70) :: rat) < of_nat (2 ^ 31)" by simp
    then have "n * 70 < 2 ^ 31" by (simp only: of_nat_less_iff)
    then have nb: "n \<le> 2 ^ 30" by simp
    have "T = 1200 + of_nat n * 70 + 2 * 60"
      using totalHeight_square [OF assms(4) nb] T by (simp add: eq)
    then have "T = of_nat (1200 + n * 70 + 2 * 60)" by simp
    then have "\<lfloor>T\<rfloor> = int (1200 + n * 70 + 2 * 60)" by (simp only: floor_of_nat)
    then show "canvasHeight c = 1200 + n * 70 + 2 * 60" using fl by simp
  qed
  then have three: "imgH = imgW \<and> n = 3 \<longrightarrow> canvasHeight c = 1530" by simp
  show ?thesis
    using c dl T fl err upper lower square three unfolding E_def n_def by blast
qed

lemma sampleCaption_lines: "length (wrapText (measureText sampleBrowser) sampleCaption) = 3"
  by (simp add: wrapText_def split_def sampleCaption_def sampleBrowser_def lit_def
      textMaxWidth_eq)

theorem card_height_within_rounding_witness:
  "\<exists>c. composeCard sampleBrowser sampleCard = Inr c \<and> canvasHeight c = 1530"
proof -
  have img: "loadImage sampleBrowser (imageUrl sampleCard) = Loaded 512 512"
    and ctx: "newContext2d sampleBrowser"
    and cap: "blankedSentence sampleCard = Some (JString sampleCaption)"
    by (simp_all add: sampleBrowser_def sampleCard_def)
  have pos: "(0 :: 32 word) < 512" by simp
  have fits: "1200 * (of_nat (unat (512 :: 32 word)) / of_nat (unat (512 :: 32 word)))
      + of_nat (length (wrapText (measureText sampleBrowser) sampleCaption)) * 70 + 2 * 60
      < (2 ^ 31 - 1 :: rat)"
    by (simp add: sampleCaption_lines)
  from card_height_within_rounding [OF img ctx cap pos pos fits] sampleCaption_lines
  show ?thesis by auto
qed

subsection \<open>The name of the downloaded file\<close>

lemma composited_filename:
  "composeCard b r = Inr c \<Longrightarrow>
   map_option download (downloadImage b (Some r)) =
     Some (lit ''visual-vocab-'' @ replaceWhiteSpaceRuns (targetWord r) @ lit ''.png'')"
  by (simp add: downloadImage_def)

lemma fallback_filename:
  "composeCard b r = Inl err \<Longrightarrow>
   map_option download (downloadImage b (Some r)) =
     Some (lit ''visual-vocab-'' @ targetWord r @ lit ''.png'')"
  by (simp add: downloadImage_def)

lemma replaceWhiteSpaceRuns_id:
  "(\<forall>c \<in> set s. \<not> isWhiteSpace c) \<Longrightarrow> replaceWhiteSpaceRuns s = s"
  by (induction s) auto

text \<open>
  Claim C7 says that on both paths the file is named \<open>visual-vocab-\<close>, the target
  word with every run of white space replaced by an underscore, \<open>.png\<close>. The
  composited path does so (\<open>composited_filename\<close>); the fallback path uses the
  target word as it is (\<open>fallback_filename\<close>). Here the image does not decode and
  the target word is \<open>ice cream\<close>.
\<close>

theorem fallback_filename_keeps_white_space:
  "map_option download (downloadImage offlineBrowser (Some iceCreamResult)) =
     Some (lit ''visual-vocab-ice cream.png'')
   \<and> lit ''visual-vocab-'' @ replaceWhiteSpaceRuns (targetWord iceCreamResult) @ lit ''.png'' =
     lit ''visual-vocab-ice_cream.png''"
proof -
  have "composeCard offlineBrowser iceCreamResult = Inl ImageLoadError"
    by (simp add: composeCard_def offlineBrowser_def sampleBrowser_def)
  then have "map_option download (downloadImage offlineBrowser (Some iceCreamResult)) =
      Some (lit ''visual-vocab-'' @ targetWord iceCreamResult @ lit ''.png'')"
    by (rule fallback_filename)
  moreover have "replaceWhiteSpaceRuns (targetWord iceCreamResult) = lit ''ice_cream''"
    by (simp add: iceCreamResult_def lit_def isWhiteSpace_def)
  ultimately show ?thesis
    by (simp add: iceCreamResult_def lit_def)
qed

end
